theory Spec2Isabelle
  imports Main
begin

section \<open>Data model of virtray.py\<close>

text \<open>
  The pydantic models \<^verbatim>\<open>Item\<close>, \<^verbatim>\<open>Config\<close> and \<^verbatim>\<open>WmctrlItem\<close>.
  Python \<^verbatim>\<open>str\<close> values are modelled as \<^typ>\<open>string\<close>: a list of code points
  below 256.
\<close>

record Item =
  icon :: string
  domain :: string

record Config =
  items :: "Item list"

record WmctrlItem =
  window_id :: string
  title :: string

section \<open>Exceptions and the outside world\<close>

text \<open>
  The Python exceptions that the modelled code can raise: \<^verbatim>\<open>libvirt.libvirtError\<close> from a
  hypervisor call, \<^verbatim>\<open>ValueError\<close> from unpacking a split line into four names,
  \<^verbatim>\<open>IndexError\<close> from \<^verbatim>\<open>[-1]\<close> on an empty list and \<^verbatim>\<open>AttributeError\<close> from
  \<^verbatim>\<open>None.window_id\<close>.
\<close>

datatype error = libvirtError | ValueError | IndexError | AttributeError

datatype 'a outcome = Returns 'a | Raises error

text \<open>
  \<^verbatim>\<open>show_message\<close> is either the default \<^verbatim>\<open>print\<close> or the lambda of
  \<^verbatim>\<open>create_tray_icon\<close> that calls \<^verbatim>\<open>trayIcon.showMessage\<close> on the icon built for
  one configured item.
\<close>

datatype sink = PrintSink | TraySink Item

datatype libvirt_call =
    LookupByName string
  | IsActive string
  | Create string
  | Destroy string
  | DomainSave string string
  | ConnRestore string

text \<open>Everything the program does to the outside, in the order it does it.\<close>

datatype event =
    Print string
  | TrayMessage Item string
  | Libvirt libvirt_call
  | Exec string
  | Sleep

datatype fs_node = SaveImage string | OtherFile

text \<open>
  The world outside the process.
  \<^item> \<open>hv\<close>: the domains the hypervisor has defined, each with its active flag.
  \<^item> \<open>fs\<close>: the paths that exist on the filesystem; a save image remembers its domain.
  \<^item> \<open>restore_unlinks\<close>: whether the hypervisor removes an image once it has restored it
    (the program does not depend on either behaviour).
  \<^item> \<open>shell\<close>: the standard output a shell command produces, given everything the program
    did before and the command line. The window manager and the console viewer live
    behind it, so a listing may change from one query to the next.
  \<^item> \<open>trace\<close>: the events so far.
\<close>

record world =
  hv :: "string \<rightharpoonup> bool"
  fs :: "string \<rightharpoonup> fs_node"
  restore_unlinks :: bool
  shell :: "event list \<Rightarrow> string \<Rightarrow> string"
  trace :: "event list"

type_synonym 'a prog = "world \<Rightarrow> 'a outcome \<times> world"

definition log :: "event \<Rightarrow> world \<Rightarrow> world" where
  "log e w = w\<lparr>trace := trace w @ [e]\<rparr>"

definition ret :: "'a \<Rightarrow> 's \<Rightarrow> 'a outcome \<times> 's" where
  "ret a s = (Returns a, s)"

text \<open>Sequencing: a raised exception skips the rest and keeps the state reached.\<close>

definition then_do ::
  "('s \<Rightarrow> 'a outcome \<times> 's) \<Rightarrow> ('a \<Rightarrow> 's \<Rightarrow> 'b outcome \<times> 's) \<Rightarrow> 's \<Rightarrow> 'b outcome \<times> 's" where
  "then_do m f s = (case m s of (Returns a, s') \<Rightarrow> f a s' | (Raises e, s') \<Rightarrow> (Raises e, s'))"

text \<open>A \<^verbatim>\<open>for x in xs\<close> loop whose body may raise.\<close>

fun for_each :: "('a \<Rightarrow> 's \<Rightarrow> unit outcome \<times> 's) \<Rightarrow> 'a list \<Rightarrow> 's \<Rightarrow> unit outcome \<times> 's" where
  "for_each body [] s = (Returns (), s)"
| "for_each body (x # xs) s =
     (case body x s of
        (Returns _, s') \<Rightarrow> for_each body xs s'
      | (Raises e, s') \<Rightarrow> (Raises e, s'))"

text \<open>\<^verbatim>\<open>print(msg)\<close> and \<^verbatim>\<open>time.sleep(0.1)\<close>.\<close>

definition print :: "string \<Rightarrow> unit prog" where
  "print msg w = (Returns (), log (Print msg) w)"

definition sleep_100ms :: "unit prog" where
  "sleep_100ms w = (Returns (), log Sleep w)"

text \<open>
  \<^verbatim>\<open>execute_command\<close>: runs the command through the shell and returns its decoded standard
  output; exit status and standard error are dropped, and nothing is raised.
\<close>

definition execute_command :: "string \<Rightarrow> world \<Rightarrow> string \<times> world" where
  "execute_command command w = (shell w (trace w) command, log (Exec command) w)"

section \<open>Python string methods\<close>

text \<open>\<^verbatim>\<open>str.isspace\<close> on one code point below 256.\<close>

definition isspace :: "char \<Rightarrow> bool" where
  "isspace c \<longleftrightarrow> c \<in> set [CHR 0x09, CHR 0x0A, CHR 0x0B, CHR 0x0C, CHR 0x0D,
     CHR 0x1C, CHR 0x1D, CHR 0x1E, CHR 0x1F, CHR 0x20, CHR 0x85, CHR 0xA0]"

text \<open>\<^verbatim>\<open>s.strip()\<close>.\<close>

definition strip :: "string \<Rightarrow> string" where
  "strip s = rev (dropWhile isspace (rev (dropWhile isspace s)))"

text \<open>\<^verbatim>\<open>s.split("\n")\<close>: never empty, empty pieces kept.\<close>

fun split_nl :: "string \<Rightarrow> string list" where
  "split_nl [] = [[]]"
| "split_nl (c # cs) =
     (if c = CHR 0x0A then [] # split_nl cs
      else (case split_nl cs of
              l # ls \<Rightarrow> (c # l) # ls
            | [] \<Rightarrow> [[c]]))"

text \<open>
  \<^verbatim>\<open>s.split(sep=None, maxsplit=n)\<close>: skip whitespace, take a run of non-whitespace, at most
  \<open>n\<close> times; what is left after skipping whitespace once more, if anything, is the last
  piece, trailing whitespace included.
\<close>

fun split_whitespace :: "nat \<Rightarrow> string \<Rightarrow> string list" where
  "split_whitespace 0 s =
     (let r = dropWhile isspace s in if r = [] then [] else [r])"
| "split_whitespace (Suc n) s =
     (let r = dropWhile isspace s in
      if r = [] then []
      else takeWhile (\<lambda>c. \<not> isspace c) r
           # split_whitespace n (dropWhile (\<lambda>c. \<not> isspace c) r))"

section \<open>WindowManager\<close>

text \<open>
  \<^verbatim>\<open>get_wmctrl_items\<close>: the loop over the lines of the stripped listing. Each line is
  split at most three times and unpacked into four names; fewer than four pieces is a
  \<^verbatim>\<open>ValueError\<close>, and the items collected so far are lost with it.
\<close>

fun get_wmctrl_items_loop :: "string list \<Rightarrow> WmctrlItem list \<Rightarrow> WmctrlItem list outcome" where
  "get_wmctrl_items_loop [] acc = Returns acc"
| "get_wmctrl_items_loop (line # rest) acc =
     (case split_whitespace 3 line of
        [wid, _, _, ttl] \<Rightarrow>
          get_wmctrl_items_loop rest (acc @ [\<lparr>window_id = wid, title = ttl\<rparr>])
      | _ \<Rightarrow> Raises ValueError)"

definition parse_listing :: "string \<Rightarrow> WmctrlItem list outcome" where
  "parse_listing out = get_wmctrl_items_loop (split_nl (strip out)) []"

definition get_wmctrl_items :: "WmctrlItem list prog" where
  "get_wmctrl_items w =
     (case execute_command ''wmctrl -l'' w of (out, w') \<Rightarrow> (parse_listing out, w'))"

text \<open>\<^verbatim>\<open>try_get_wmctrl_item\<close>: the first item whose title passes, as \<^verbatim>\<open>(item, True)\<close>, or
  \<^verbatim>\<open>(None, False)\<close>.\<close>

fun first_target :: "(string \<Rightarrow> bool) \<Rightarrow> WmctrlItem list \<Rightarrow> WmctrlItem option \<times> bool" where
  "first_target is_target_title [] = (None, False)"
| "first_target is_target_title (item # rest) =
     (if is_target_title (title item) then (Some item, True)
      else first_target is_target_title rest)"

definition try_get_wmctrl_item :: "(string \<Rightarrow> bool) \<Rightarrow> (WmctrlItem option \<times> bool) prog" where
  "try_get_wmctrl_item is_target_title =
     then_do get_wmctrl_items (\<lambda>its. ret (first_target is_target_title its))"

text \<open>\<^verbatim>\<open>virt_manager_target_title\<close>: the closure comparing a title with the target.\<close>

definition virt_manager_target_title :: "string \<Rightarrow> string \<Rightarrow> bool" where
  "virt_manager_target_title dname ttl \<longleftrightarrow> ttl = dname @ '' on QEMU/KVM''"

text \<open>
  \<^verbatim>\<open>open_virt_manager\<close>: the launch, then the body of \<^verbatim>\<open>for _ in range(10)\<close>, with the
  number of iterations left as the first argument.
\<close>

fun focus_loop :: "nat \<Rightarrow> string \<Rightarrow> unit prog" where
  "focus_loop 0 dname w = (Returns (), w)"
| "focus_loop (Suc n) dname w =
     (case try_get_wmctrl_item (virt_manager_target_title dname) w of
        (Raises e, w1) \<Rightarrow> (Raises e, w1)
      | (Returns (item, found), w1) \<Rightarrow>
          if found then
            (case item of
               Some it \<Rightarrow> (Returns (), snd (execute_command (''wmctrl -ia '' @ window_id it) w1))
             | None \<Rightarrow> (Raises AttributeError, w1))
          else focus_loop n dname (snd (sleep_100ms w1)))"

definition open_virt_manager :: "string \<Rightarrow> unit prog" where
  "open_virt_manager dname w =
     focus_loop 10 dname
       (snd (execute_command
          (''virt-manager --connect=qemu:///system --show-domain-console='' @ dname) w))"

text \<open>
  \<^verbatim>\<open>is_window_open\<close>: its own loop over the lines of the stripped listing, looking at the
  last piece of each split line; \<^verbatim>\<open>[-1]\<close> of no piece at all is an \<^verbatim>\<open>IndexError\<close>.
\<close>

fun is_window_open_loop :: "(string \<Rightarrow> bool) \<Rightarrow> string list \<Rightarrow> bool outcome" where
  "is_window_open_loop is_target_title [] = Returns False"
| "is_window_open_loop is_target_title (line # rest) =
     (case split_whitespace 3 line of
        [] \<Rightarrow> Raises IndexError
      | p # ps \<Rightarrow>
          if is_target_title (last (p # ps)) then Returns True
          else is_window_open_loop is_target_title rest)"

definition scan_listing :: "(string \<Rightarrow> bool) \<Rightarrow> string \<Rightarrow> bool outcome" where
  "scan_listing is_target_title out = is_window_open_loop is_target_title (split_nl (strip out))"

definition is_window_open :: "(string \<Rightarrow> bool) \<Rightarrow> bool prog" where
  "is_window_open is_target_title w =
     (case execute_command ''wmctrl -l'' w of
        (out, w') \<Rightarrow> (scan_listing is_target_title out, w'))"

text \<open>\<^verbatim>\<open>close_window\<close>: one close command for every item whose title passes.\<close>

definition close_window :: "(string \<Rightarrow> bool) \<Rightarrow> unit prog" where
  "close_window is_target_title =
     then_do get_wmctrl_items
       (for_each (\<lambda>item w.
          if is_target_title (title item)
          then (Returns (), snd (execute_command (''wmctrl -ic '' @ window_id item) w))
          else (Returns (), w)))"

definition trigger_virt_manager :: "string \<Rightarrow> unit prog" where
  "trigger_virt_manager dname =
     then_do (is_window_open (virt_manager_target_title dname))
       (\<lambda>opened. if opened then close_window (virt_manager_target_title dname)
                 else open_virt_manager dname)"

section \<open>The hypervisor behind the libvirt binding\<close>

text \<open>
  What the calls on the connection and on a domain object do to the world. A domain
  object is its name. Looking up an undefined domain, creating an active one, destroying
  or saving an inactive one, and restoring from a path that holds no image of a defined,
  inactive domain all raise \<^verbatim>\<open>libvirtError\<close>. Saving writes the image and stops the
  domain; restoring starts it.
\<close>

definition lookupByName :: "string \<Rightarrow> string prog" where
  "lookupByName name w =
     (let w' = log (Libvirt (LookupByName name)) w in
      case hv w' name of
        None \<Rightarrow> (Raises libvirtError, w')
      | Some _ \<Rightarrow> (Returns name, w'))"

definition isActive :: "string \<Rightarrow> int prog" where
  "isActive dm w =
     (let w' = log (Libvirt (IsActive dm)) w in
      case hv w' dm of
        None \<Rightarrow> (Raises libvirtError, w')
      | Some a \<Rightarrow> (Returns (if a then 1 else 0), w'))"

definition dom_create :: "string \<Rightarrow> unit prog" where
  "dom_create dm w =
     (let w' = log (Libvirt (Create dm)) w in
      if hv w' dm = Some False then (Returns (), w'\<lparr>hv := (hv w')(dm \<mapsto> True)\<rparr>)
      else (Raises libvirtError, w'))"

definition dom_destroy :: "string \<Rightarrow> unit prog" where
  "dom_destroy dm w =
     (let w' = log (Libvirt (Destroy dm)) w in
      if hv w' dm = Some True then (Returns (), w'\<lparr>hv := (hv w')(dm \<mapsto> False)\<rparr>)
      else (Raises libvirtError, w'))"

definition dom_save :: "string \<Rightarrow> string \<Rightarrow> unit prog" where
  "dom_save dm path w =
     (let w' = log (Libvirt (DomainSave dm path)) w in
      if hv w' dm = Some True
      then (Returns (), w'\<lparr>hv := (hv w')(dm \<mapsto> False), fs := (fs w')(path \<mapsto> SaveImage dm)\<rparr>)
      else (Raises libvirtError, w'))"

definition conn_restore :: "string \<Rightarrow> unit prog" where
  "conn_restore path w =
     (let w' = log (Libvirt (ConnRestore path)) w in
      case fs w' path of
        Some (SaveImage dm) \<Rightarrow>
          if hv w' dm = Some False
          then (Returns (),
                w'\<lparr>hv := (hv w')(dm \<mapsto> True),
                   fs := (if restore_unlinks w' then (fs w')(path := None) else fs w')\<rparr>)
          else (Raises libvirtError, w')
      | _ \<Rightarrow> (Raises libvirtError, w'))"

text \<open>\<^verbatim>\<open>os.path.exists\<close>.\<close>

definition path_exists :: "string \<Rightarrow> world \<Rightarrow> bool" where
  "path_exists path w \<longleftrightarrow> fs w path \<noteq> None"

section \<open>LibvirtManager\<close>

text \<open>The connection is the hypervisor of the world; the object keeps its sink.\<close>

record LibvirtManager =
  show_message :: sink

fun notification :: "sink \<Rightarrow> string \<Rightarrow> event" where
  "notification PrintSink msg = Print msg"
| "notification (TraySink it) msg = TrayMessage it msg"

definition emit :: "sink \<Rightarrow> string \<Rightarrow> unit prog" where
  "emit s msg w = (Returns (), log (notification s msg) w)"

definition get_save_path :: "string \<Rightarrow> string" where
  "get_save_path dname = ''/var/lib/libvirt/qemu/save/'' @ dname @ ''.save''"

definition save :: "LibvirtManager \<Rightarrow> string \<Rightarrow> unit prog" where
  "save self dname =
     then_do (emit (show_message self) (''saving '' @ dname)) (\<lambda>_.
     then_do (lookupByName dname) (\<lambda>dm.
     then_do (dom_save dm (get_save_path dname)) (\<lambda>_.
     emit (show_message self) (''saved to '' @ get_save_path dname))))"

definition restore :: "LibvirtManager \<Rightarrow> string \<Rightarrow> unit prog" where
  "restore self dname =
     then_do (emit (show_message self) (''restoring '' @ dname)) (\<lambda>_.
     then_do (conn_restore (get_save_path dname)) (\<lambda>_.
     emit (show_message self) (''restored from '' @ get_save_path dname)))"

definition is_saved :: "LibvirtManager \<Rightarrow> string \<Rightarrow> bool prog" where
  "is_saved self dname w = (Returns (path_exists (get_save_path dname) w), w)"

definition is_running :: "LibvirtManager \<Rightarrow> string \<Rightarrow> bool prog" where
  "is_running self dname =
     then_do (lookupByName dname) (\<lambda>dm.
     then_do (isActive dm) (\<lambda>a. ret (a = 1)))"

definition start :: "LibvirtManager \<Rightarrow> string \<Rightarrow> unit prog" where
  "start self dname =
     then_do (emit (show_message self) (''starting '' @ dname)) (\<lambda>_.
     then_do (lookupByName dname) (\<lambda>dm.
     then_do (dom_create dm) (\<lambda>_.
     emit (show_message self) (''started '' @ dname))))"

definition force_shutdown :: "LibvirtManager \<Rightarrow> string \<Rightarrow> unit prog" where
  "force_shutdown self dname =
     then_do (emit (show_message self) (''force shutting down '' @ dname)) (\<lambda>_.
     then_do (lookupByName dname) (\<lambda>dm.
     then_do (dom_destroy dm) (\<lambda>_.
     emit (show_message self) (''force shut down '' @ dname))))"

section \<open>VirtTray\<close>

record VirtTray =
  virt :: LibvirtManager
  config :: Config

definition save_all :: "VirtTray \<Rightarrow> unit prog" where
  "save_all self =
     for_each (\<lambda>item.
        then_do (is_running (virt self) (domain item)) (\<lambda>running.
          if running then save (virt self) (domain item) else ret ()))
       (items (config self))"

definition restore_all :: "VirtTray \<Rightarrow> unit prog" where
  "restore_all self =
     for_each (\<lambda>item.
        then_do (is_saved (virt self) (domain item)) (\<lambda>saved.
          if saved then restore (virt self) (domain item) else ret ()))
       (items (config self))"

text \<open>
  The enabled flags of the four single-domain actions of one menu. They are state of the
  user interface, next to the world.
\<close>

record menu =
  start_enabled :: bool
  force_shutdown_enabled :: bool
  save_enabled :: bool
  restore_enabled :: bool

type_synonym 'a ui_prog = "menu \<times> world \<Rightarrow> 'a outcome \<times> (menu \<times> world)"

definition in_world :: "'a prog \<Rightarrow> 'a ui_prog" where
  "in_world p s = (case p (snd s) of (r, w') \<Rightarrow> (r, (fst s, w')))"

definition setEnabled :: "(menu \<Rightarrow> menu) \<Rightarrow> unit ui_prog" where
  "setEnabled upd s = (Returns (), (upd (fst s), snd s))"

text \<open>\<^verbatim>\<open>virt.is_running(d) and not virt.is_saved(d)\<close>: the right operand is evaluated only
  when the left one is true.\<close>

definition running_and_not_saved :: "LibvirtManager \<Rightarrow> string \<Rightarrow> bool prog" where
  "running_and_not_saved v dname =
     then_do (is_running v dname) (\<lambda>running.
       if running then then_do (is_saved v dname) (\<lambda>saved. ret (\<not> saved))
       else ret False)"

text \<open>The four \<^verbatim>\<open>setEnabled\<close> statements, shared by the construction of the menu and by
  \<^verbatim>\<open>update_menu\<close>, which writes them out again.\<close>

definition set_all_enabled :: "LibvirtManager \<Rightarrow> Item \<Rightarrow> unit ui_prog" where
  "set_all_enabled v item =
     then_do (in_world (is_running v (domain item))) (\<lambda>r1.
     then_do (setEnabled (\<lambda>m. m\<lparr>start_enabled := \<not> r1\<rparr>)) (\<lambda>_.
     then_do (in_world (is_running v (domain item))) (\<lambda>r2.
     then_do (setEnabled (\<lambda>m. m\<lparr>force_shutdown_enabled := r2\<rparr>)) (\<lambda>_.
     then_do (in_world (running_and_not_saved v (domain item))) (\<lambda>b.
     then_do (setEnabled (\<lambda>m. m\<lparr>save_enabled := b\<rparr>)) (\<lambda>_.
     then_do (in_world (is_saved v (domain item))) (\<lambda>s.
     setEnabled (\<lambda>m. m\<lparr>restore_enabled := s\<rparr>))))))))"

definition update_menu :: "LibvirtManager \<Rightarrow> Item \<Rightarrow> unit ui_prog" where
  "update_menu v item =
     then_do (in_world (print ''update_menu'')) (\<lambda>_. set_all_enabled v item)"

text \<open>
  What \<^verbatim>\<open>create_tray_icon\<close> leaves behind for one item: the session it built for the
  menu, with the sink that shows a message at this tray icon, and the menu's flags.
  A fresh \<^verbatim>\<open>QAction\<close> is enabled.
\<close>

record tray =
  tray_item :: Item
  tray_virt :: LibvirtManager
  tray_menu :: menu

definition new_menu :: menu where
  "new_menu = \<lparr>start_enabled = True, force_shutdown_enabled = True,
                save_enabled = True, restore_enabled = True\<rparr>"

definition create_tray_icon :: "VirtTray \<Rightarrow> Item \<Rightarrow> tray prog" where
  "create_tray_icon self item w =
     (let v = \<lparr>show_message = TraySink item\<rparr> in
      case set_all_enabled v item (new_menu, w) of
        (Returns _, (m, w')) \<Rightarrow> (Returns \<lparr>tray_item = item, tray_virt = v, tray_menu = m\<rparr>, w')
      | (Raises e, (m, w')) \<Rightarrow> (Raises e, w'))"

text \<open>The signal connections made by \<^verbatim>\<open>create_tray_icon\<close>.\<close>

datatype menu_action = Start | ForceShutdown | Save | Restore | SaveAll | RestoreAll | Quit

definition triggered :: "VirtTray \<Rightarrow> tray \<Rightarrow> menu_action \<Rightarrow> unit prog" where
  "triggered self t a =
     (case a of
        Start \<Rightarrow> start (tray_virt t) (domain (tray_item t))
      | ForceShutdown \<Rightarrow> force_shutdown (tray_virt t) (domain (tray_item t))
      | Save \<Rightarrow> save (tray_virt t) (domain (tray_item t))
      | Restore \<Rightarrow> restore (tray_virt t) (domain (tray_item t))
      | SaveAll \<Rightarrow> save_all self
      | RestoreAll \<Rightarrow> restore_all self
      | Quit \<Rightarrow> ret ())"

definition aboutToShow :: "tray \<Rightarrow> world \<Rightarrow> unit outcome \<times> (tray \<times> world)" where
  "aboutToShow t w =
     (case update_menu (tray_virt t) (tray_item t) (tray_menu t, w) of
        (r, (m, w')) \<Rightarrow> (r, (t\<lparr>tray_menu := m\<rparr>, w')))"

datatype activation_reason = Unknown | Context | DoubleClick | Trigger | MiddleClick

definition activated :: "tray \<Rightarrow> activation_reason \<Rightarrow> unit prog" where
  "activated t reason =
     (if reason = Trigger then trigger_virt_manager (domain (tray_item t)) else ret ())"

text \<open>\<^verbatim>\<open>VirtTray.main\<close> up to the start of the event loop: one tray icon per item.\<close>

fun create_tray_icons :: "VirtTray \<Rightarrow> Item list \<Rightarrow> tray list \<Rightarrow> tray list prog" where
  "create_tray_icons self [] acc w = (Returns acc, w)"
| "create_tray_icons self (item # rest) acc w =
     (case create_tray_icon self item w of
        (Returns t, w') \<Rightarrow> create_tray_icons self rest (acc @ [t]) w'
      | (Raises e, w') \<Rightarrow> (Raises e, w'))"

definition VirtTray_main :: "VirtTray \<Rightarrow> tray list prog" where
  "VirtTray_main self = create_tray_icons self (items (config self)) []"

text \<open>\<^verbatim>\<open>main\<close>, given the configuration that \<^verbatim>\<open>load_config\<close> returned:
  \<^verbatim>\<open>LibvirtManager()\<close> takes the default sink.\<close>

definition startup_tray :: "Config \<Rightarrow> VirtTray" where
  "startup_tray cfg = \<lparr>virt = \<lparr>show_message = PrintSink\<rparr>, config = cfg\<rparr>"

definition main :: "Config \<Rightarrow> tray list prog" where
  "main cfg = VirtTray_main (startup_tray cfg)"

section \<open>Concrete worlds\<close>

text \<open>A hypervisor with the one running domain \<open>web01\<close> and no save file.\<close>

definition web01_running :: world where
  "web01_running = \<lparr>hv = [''web01'' \<mapsto> True], fs = Map.empty, restore_unlinks = False,
     shell = (\<lambda>_ _. ''''), trace = []\<rparr>"

text \<open>Three stopped domains; \<open>a\<close> and \<open>c\<close> have a save image, \<open>b\<close> has none.\<close>

definition abc_world :: world where
  "abc_world = \<lparr>hv = [''a'' \<mapsto> False, ''b'' \<mapsto> False, ''c'' \<mapsto> False],
     fs = [''/var/lib/libvirt/qemu/save/a.save'' \<mapsto> SaveImage ''a'',
           ''/var/lib/libvirt/qemu/save/c.save'' \<mapsto> SaveImage ''c''],
     restore_unlinks = True, shell = (\<lambda>_ _. ''''), trace = []\<rparr>"

definition abc_tray :: VirtTray where
  "abc_tray = \<lparr>virt = \<lparr>show_message = PrintSink\<rparr>,
     config = \<lparr>items = [\<lparr>icon = ''a.png'', domain = ''a''\<rparr>,
                        \<lparr>icon = ''b.png'', domain = ''b''\<rparr>,
                        \<lparr>icon = ''c.png'', domain = ''c''\<rparr>]\<rparr>\<rparr>"

text \<open>All three domains have a save image, and \<open>a\<close> is running all the same (the
  combination of running and saved); no domain \<open>ghost\<close> is defined.\<close>

definition busy_world :: world where
  "busy_world = \<lparr>hv = [''a'' \<mapsto> True, ''b'' \<mapsto> False, ''c'' \<mapsto> False],
     fs = [''/var/lib/libvirt/qemu/save/a.save'' \<mapsto> SaveImage ''a'',
           ''/var/lib/libvirt/qemu/save/b.save'' \<mapsto> SaveImage ''b'',
           ''/var/lib/libvirt/qemu/save/c.save'' \<mapsto> SaveImage ''c''],
     restore_unlinks = True, shell = (\<lambda>_ _. ''''), trace = []\<rparr>"

text \<open>The tray orchestrator built at startup for a list of domain names.\<close>

definition tray_of :: "string list \<Rightarrow> VirtTray" where
  "tray_of ds = \<lparr>virt = \<lparr>show_message = PrintSink\<rparr>,
     config = \<lparr>items = map (\<lambda>d. \<lparr>icon = d @ ''.png'', domain = d\<rparr>) ds\<rparr>\<rparr>"

text \<open>What one successful \<open>restore\<close> adds to the trace.\<close>

definition restore_events :: "sink \<Rightarrow> string \<Rightarrow> event list" where
  "restore_events s d =
     [notification s (''restoring '' @ d),
      Libvirt (ConnRestore (get_save_path d)),
      notification s (''restored from '' @ get_save_path d)]"

text \<open>An event that a session with sink \<open>s\<close> may cause: a hypervisor call, or a
  message through \<open>s\<close>.\<close>

fun session_event :: "sink \<Rightarrow> event \<Rightarrow> bool" where
  "session_event s (Libvirt c) = True"
| "session_event PrintSink (Print m) = True"
| "session_event (TraySink it) (TrayMessage it' m) = (it = it')"
| "session_event s e = False"

text \<open>A program adds only events of one kind to the trace, whether it returns or
  raises.\<close>

definition emits_only :: "(event \<Rightarrow> bool) \<Rightarrow> 'a prog \<Rightarrow> bool" where
  "emits_only P p \<longleftrightarrow> (\<forall>w. \<exists>evs. trace (snd (p w)) = trace w @ evs \<and> list_all P evs)"

text \<open>The configuration with the one item \<open>web01\<close>, its tray icon as \<open>main\<close> builds
  it in \<open>web01_running\<close>, and the world after that.\<close>

definition web01_item :: Item where
  "web01_item = \<lparr>icon = ''web01.png'', domain = ''web01''\<rparr>"

definition web01_tray :: tray where
  "web01_tray = \<lparr>tray_item = web01_item,
     tray_virt = \<lparr>show_message = TraySink web01_item\<rparr>,
     tray_menu = \<lparr>start_enabled = False, force_shutdown_enabled = True,
                  save_enabled = True, restore_enabled = False\<rparr>\<rparr>"

definition web01_started :: world where
  "web01_started = web01_running\<lparr>trace :=
     [Libvirt (LookupByName ''web01''), Libvirt (IsActive ''web01''),
      Libvirt (LookupByName ''web01''), Libvirt (IsActive ''web01''),
      Libvirt (LookupByName ''web01''), Libvirt (IsActive ''web01'')]\<rparr>"

text \<open>The command line that \<open>open_virt_manager\<close> runs first.\<close>

definition launch_command :: "string \<Rightarrow> string" where
  "launch_command d = ''virt-manager --connect=qemu:///system --show-domain-console='' @ d"

text \<open>The world after \<open>k\<close> attempts that found nothing: \<open>k\<close> listings, each followed by
  a sleep.\<close>

definition after_polls :: "nat \<Rightarrow> world \<Rightarrow> world" where
  "after_polls k w = w\<lparr>trace := trace w @ concat (replicate k [Exec ''wmctrl -l'', Sleep])\<rparr>"

text \<open>The world right after the launch of the console viewer.\<close>

definition launched :: "string \<Rightarrow> world \<Rightarrow> world" where
  "launched d w = w\<lparr>trace := trace w @ [Exec (launch_command d)]\<rparr>"

text \<open>A desktop with a terminal window on which no console window ever shows up.\<close>

definition never_appears :: world where
  "never_appears = \<lparr>hv = Map.empty, fs = Map.empty, restore_unlinks = False,
     shell = (\<lambda>h c. if c = ''wmctrl -l'' then ''0x01 0 host Terminal'' else []),
     trace = []\<rparr>"

text \<open>A desktop on which the console window of \<open>vm\<close> shows up once the program has slept
  twice.\<close>

definition appears_after_two :: world where
  "appears_after_two = \<lparr>hv = Map.empty, fs = Map.empty, restore_unlinks = False,
     shell = (\<lambda>h c.
        if c = ''wmctrl -l'' then
          (if 2 \<le> count_list h Sleep
           then ''0x01 0 host Terminal'' @ [CHR 0x0A] @ ''0x02 0 host vm on QEMU/KVM''
           else ''0x01 0 host Terminal'')
        else []),
     trace = []\<rparr>"

text \<open>The first whitespace-delimited field of a line, the line after its first field, and
  what is left of a line after three fields and the whitespace behind them.\<close>

definition first_field :: "string \<Rightarrow> string" where
  "first_field s = takeWhile (\<lambda>c. \<not> isspace c) (dropWhile isspace s)"

definition skip_field :: "string \<Rightarrow> string" where
  "skip_field s = dropWhile (\<lambda>c. \<not> isspace c) (dropWhile isspace s)"

definition after_three_fields :: "string \<Rightarrow> string" where
  "after_three_fields s = dropWhile isspace (skip_field (skip_field (skip_field s)))"

text \<open>The parser as section 4.2 of the specification words it, for comparison with
  \<open>parse_listing\<close>: for each non-empty line, the first two whitespace-delimited tokens are
  the id and ignored metadata, and the remainder of the line is the title.\<close>

fun listWindows_spec_loop :: "string list \<Rightarrow> WmctrlItem list outcome" where
  "listWindows_spec_loop [] = Returns []"
| "listWindows_spec_loop (line # rest) =
     (if line = [] then listWindows_spec_loop rest
      else (case split_whitespace 2 line of
              [wid, _, ttl] \<Rightarrow>
                (case listWindows_spec_loop rest of
                   Returns its \<Rightarrow> Returns (\<lparr>window_id = wid, title = ttl\<rparr> # its)
                 | Raises e \<Rightarrow> Raises e)
            | _ \<Rightarrow> Raises ValueError))"

definition listWindows_spec :: "string \<Rightarrow> WmctrlItem list outcome" where
  "listWindows_spec out = listWindows_spec_loop (split_nl out)"

text \<open>Two listings as \<open>wmctrl -l\<close> prints them: one with two titled windows, one whose second
  window has no title.\<close>

definition two_windows :: string where
  "two_windows = ''0x03a00003  0 myhost Terminal'' @ [CHR 0x0A]
     @ ''0x04600007  1 myhost vm on QEMU/KVM'' @ [CHR 0x0A]"

definition untitled_window :: string where
  "untitled_window = ''0x03a00003  0 myhost Terminal'' @ [CHR 0x0A]
     @ ''0x04600007  1 myhost'' @ [CHR 0x0A]"

text \<open>A desktop without any window: every command prints nothing.\<close>

definition empty_desktop :: world where
  "empty_desktop = \<lparr>hv = Map.empty, fs = Map.empty, restore_unlinks = False,
     shell = (\<lambda>h c. []), trace = []\<rparr>"

text \<open>What one turn of the Save All loop adds to the trace for a known domain.\<close>

definition save_events :: "sink \<Rightarrow> string \<Rightarrow> bool \<Rightarrow> event list" where
  "save_events s d running =
     [Libvirt (LookupByName d), Libvirt (IsActive d)] @
     (if running
      then [notification s (''saving '' @ d),
            Libvirt (LookupByName d),
            Libvirt (DomainSave d (get_save_path d)),
            notification s (''saved to '' @ get_save_path d)]
      else [])"

text \<open>The domain \<open>web01\<close> stopped, with its save image in place.\<close>

definition web01_saved :: world where
  "web01_saved = \<lparr>hv = [''web01'' \<mapsto> False],
     fs = [''/var/lib/libvirt/qemu/save/web01.save'' \<mapsto> SaveImage ''web01''],
     restore_unlinks = False, shell = (\<lambda>_ _. []), trace = []\<rparr>"

section \<open>Hypervisor session: basic facts\<close>

lemma is_running_known:
  "hv w d = Some r \<Longrightarrow>
   is_running v d w =
     (Returns r, w\<lparr>trace := trace w @ [Libvirt (LookupByName d), Libvirt (IsActive d)]\<rparr>)"
  by (simp add: is_running_def then_do_def lookupByName_def isActive_def log_def ret_def Let_def)

lemma save_running:
  assumes "hv w d = Some True"
  shows "save self d w =
    (Returns (),
     w\<lparr>trace := trace w @
          [notification (show_message self) (''saving '' @ d),
           Libvirt (LookupByName d),
           Libvirt (DomainSave d (get_save_path d)),
           notification (show_message self) (''saved to '' @ get_save_path d)],
       hv := (hv w)(d \<mapsto> False),
       fs := (fs w)(get_save_path d \<mapsto> SaveImage d)\<rparr>)"
  using assms
  by (simp add: save_def then_do_def emit_def lookupByName_def dom_save_def log_def Let_def)

section \<open>The save file decides \<open>is_saved\<close>\<close>

text \<open>
  Claim C2. For every domain, \<open>is_saved\<close> returns true exactly when something exists at
  the path \<open>/var/lib/libvirt/qemu/save/{domain}.save\<close> in the world it is asked in. The
  world is left as it was (no hypervisor call is made), and neither the state of the
  hypervisor, nor the events so far, nor the session that is asked changes the answer.
\<close>

theorem is_saved_iff_save_file_exists:
  "is_saved self d w =
     (Returns (fs w (''/var/lib/libvirt/qemu/save/'' @ d @ ''.save'') \<noteq> None), w)
   \<and> fst (is_saved self d (w\<lparr>hv := h, trace := t\<rparr>)) = fst (is_saved self' d w)"
  by (simp add: is_saved_def path_exists_def get_save_path_def)

section \<open>Saving a running domain\<close>

text \<open>
  Claim C9. \<open>save\<close> on a domain that the hypervisor reports as running returns, and what
  it did is, in this order: the notification \<open>saving {domain}\<close> through its sink, the
  lookup, the save to \<open>/var/lib/libvirt/qemu/save/{domain}.save\<close>, and the notification
  \<open>saved to /var/lib/libvirt/qemu/save/{domain}.save\<close> through its sink. Asked afterwards,
  \<open>is_saved\<close> returns true.
\<close>

theorem save_running_notifies_twice_then_is_saved:
  assumes "hv w d = Some True"
  shows "\<exists>w'. save self d w = (Returns (), w')
     \<and> trace w' = trace w @
          [notification (show_message self) (''saving '' @ d),
           Libvirt (LookupByName d),
           Libvirt (DomainSave d (''/var/lib/libvirt/qemu/save/'' @ d @ ''.save'')),
           notification (show_message self)
             (''saved to /var/lib/libvirt/qemu/save/'' @ d @ ''.save'')]
     \<and> fst (is_saved self d w') = Returns True"
  using save_running [OF assms, of self]
  by (simp add: is_saved_def path_exists_def get_save_path_def)

theorem save_running_notifies_twice_then_is_saved_witness:
  "hv web01_running ''web01'' = Some True
   \<and> (\<exists>w'. save \<lparr>show_message = PrintSink\<rparr> ''web01'' web01_running = (Returns (), w')
     \<and> trace w' =
          [Print ''saving web01'',
           Libvirt (LookupByName ''web01''),
           Libvirt (DomainSave ''web01'' ''/var/lib/libvirt/qemu/save/web01.save''),
           Print ''saved to /var/lib/libvirt/qemu/save/web01.save'']
     \<and> fst (is_saved \<lparr>show_message = PrintSink\<rparr> ''web01'' w') = Returns True)"
proof -
  have h: "hv web01_running ''web01'' = Some True"
    by (simp add: web01_running_def)
  show ?thesis
    using h save_running_notifies_twice_then_is_saved [OF h, of "\<lparr>show_message = PrintSink\<rparr>"]
    by (simp add: web01_running_def)
qed

section \<open>The menu is recomputed from fresh queries\<close>

lemma set_all_enabled_known:
  assumes "hv w (domain item) = Some running"
  shows "set_all_enabled v item (m, w) =
    (Returns (),
     (\<lparr>start_enabled = \<not> running,
       force_shutdown_enabled = running,
       save_enabled = (running \<and> \<not> path_exists (get_save_path (domain item)) w),
       restore_enabled = path_exists (get_save_path (domain item)) w\<rparr>,
      w\<lparr>trace := trace w @
          [Libvirt (LookupByName (domain item)), Libvirt (IsActive (domain item)),
           Libvirt (LookupByName (domain item)), Libvirt (IsActive (domain item)),
           Libvirt (LookupByName (domain item)), Libvirt (IsActive (domain item))]\<rparr>))"
  using assms
  by (cases m)
     (simp add: set_all_enabled_def then_do_def in_world_def is_running_known setEnabled_def
        running_and_not_saved_def is_saved_def ret_def path_exists_def)

text \<open>
  Claim C1. Whenever the hook \<open>update_menu\<close> of a menu runs for an item whose domain the
  hypervisor knows, with \<open>running\<close> its active flag, it returns with: Start enabled iff
  not running, Force Shutdown enabled iff running, Save enabled iff running and no save
  file exists, Restore enabled iff the save file exists. The flags the menu had before
  (\<open>m\<close>) do not occur in the result, and every run asks the hypervisor again: three
  lookups of the domain, each followed by the query of its active flag. The queries change
  neither the hypervisor nor the filesystem.
\<close>

theorem update_menu_enables_per_table:
  assumes "hv w (domain item) = Some running"
  shows "\<exists>w'. update_menu v item (m, w) =
      (Returns (),
       (\<lparr>start_enabled = \<not> running,
         force_shutdown_enabled = running,
         save_enabled =
           (running \<and> fs w (''/var/lib/libvirt/qemu/save/'' @ domain item @ ''.save'') = None),
         restore_enabled =
           (fs w (''/var/lib/libvirt/qemu/save/'' @ domain item @ ''.save'') \<noteq> None)\<rparr>,
        w'))
     \<and> hv w' = hv w \<and> fs w' = fs w
     \<and> trace w' = trace w @
          [Print ''update_menu'',
           Libvirt (LookupByName (domain item)), Libvirt (IsActive (domain item)),
           Libvirt (LookupByName (domain item)), Libvirt (IsActive (domain item)),
           Libvirt (LookupByName (domain item)), Libvirt (IsActive (domain item))]"
proof -
  let ?w1 = "log (Print ''update_menu'') w"
  have "hv ?w1 (domain item) = Some running"
    using assms by (simp add: log_def)
  from set_all_enabled_known [OF this, of v m]
  show ?thesis
    by (simp add: update_menu_def then_do_def in_world_def print_def log_def
        path_exists_def get_save_path_def)
qed

theorem update_menu_enables_per_table_witness:
  "hv web01_running (domain \<lparr>icon = ''web01.png'', domain = ''web01''\<rparr>) = Some True
   \<and> (\<exists>w'. update_menu \<lparr>show_message = TraySink \<lparr>icon = ''web01.png'', domain = ''web01''\<rparr>\<rparr>
              \<lparr>icon = ''web01.png'', domain = ''web01''\<rparr>
              (\<lparr>start_enabled = True, force_shutdown_enabled = False,
                save_enabled = False, restore_enabled = True\<rparr>, web01_running) =
         (Returns (),
          (\<lparr>start_enabled = False, force_shutdown_enabled = True,
            save_enabled = True, restore_enabled = False\<rparr>, w'))
       \<and> hv w' = hv web01_running \<and> fs w' = fs web01_running
       \<and> trace w' =
            [Print ''update_menu'',
             Libvirt (LookupByName ''web01''), Libvirt (IsActive ''web01''),
             Libvirt (LookupByName ''web01''), Libvirt (IsActive ''web01''),
             Libvirt (LookupByName ''web01''), Libvirt (IsActive ''web01'')])"
proof -
  let ?item = "\<lparr>icon = ''web01.png'', domain = ''web01''\<rparr>"
  have h: "hv web01_running (domain ?item) = Some True"
    by (simp add: web01_running_def)
  show ?thesis
    using h update_menu_enables_per_table [OF h, of "\<lparr>show_message = TraySink ?item\<rparr>"
        "\<lparr>start_enabled = True, force_shutdown_enabled = False,
          save_enabled = False, restore_enabled = True\<rparr>"]
    by (simp add: web01_running_def)
qed

section \<open>Batch operations: helper facts\<close>

lemma for_each_append:
  "for_each body (xs @ ys) s =
     (case for_each body xs s of
        (Returns _, s') \<Rightarrow> for_each body ys s'
      | (Raises e, s') \<Rightarrow> (Raises e, s'))"
  by (induction xs arbitrary: s) (auto split: prod.splits outcome.splits)

lemma get_save_path_inj: "get_save_path a = get_save_path b \<longleftrightarrow> a = b"
  by (simp add: get_save_path_def)

lemma restore_restorable:
  assumes "fs w (get_save_path d) = Some (SaveImage d)" and "hv w d = Some False"
  shows "restore v d w =
    (Returns (),
     w\<lparr>trace := trace w @
          [notification (show_message v) (''restoring '' @ d),
           Libvirt (ConnRestore (get_save_path d)),
           notification (show_message v) (''restored from '' @ get_save_path d)],
       hv := (hv w)(d \<mapsto> True),
       fs := (if restore_unlinks w then (fs w)(get_save_path d := None) else fs w)\<rparr>)"
  using assms
  by (simp add: restore_def then_do_def emit_def conn_restore_def log_def Let_def)

lemma restore_loop:
  assumes "distinct (map domain its)"
    and "\<forall>it \<in> set its. fs w (get_save_path (domain it)) \<noteq> None \<longrightarrow>
           fs w (get_save_path (domain it)) = Some (SaveImage (domain it)) \<and> hv w (domain it) = Some False"
  shows "\<exists>w'. for_each (\<lambda>item.
        then_do (is_saved v (domain item)) (\<lambda>saved.
          if saved then restore v (domain item) else ret ())) its w = (Returns (), w')
     \<and> trace w' = trace w @ concat (map (\<lambda>it. restore_events (show_message v) (domain it))
          (filter (\<lambda>it. fs w (get_save_path (domain it)) \<noteq> None) its))"
  using assms
proof (induction its arbitrary: w)
  case Nil
  then show ?case by simp
next
  case (Cons it its)
  let ?d = "domain it"
  show ?case
  proof (cases "fs w (get_save_path ?d) = None")
    case True
    have step: "then_do (is_saved v ?d) (\<lambda>saved. if saved then restore v ?d else ret ()) w = (Returns (), w)"
      using True by (simp add: then_do_def is_saved_def path_exists_def ret_def)
    from Cons.prems have "distinct (map domain its)" by simp
    moreover from Cons.prems have "\<forall>it \<in> set its. fs w (get_save_path (domain it)) \<noteq> None \<longrightarrow>
           fs w (get_save_path (domain it)) = Some (SaveImage (domain it)) \<and> hv w (domain it) = Some False"
      by simp
    ultimately obtain w' where IH: "for_each (\<lambda>item.
        then_do (is_saved v (domain item)) (\<lambda>saved.
          if saved then restore v (domain item) else ret ())) its w = (Returns (), w')"
      "trace w' = trace w @ concat (map (\<lambda>it. restore_events (show_message v) (domain it))
          (filter (\<lambda>it. fs w (get_save_path (domain it)) \<noteq> None) its))"
      using Cons.IH [of w] by blast
    show ?thesis using True step IH by simp
  next
    case False
    with Cons.prems have ok: "fs w (get_save_path ?d) = Some (SaveImage ?d)" "hv w ?d = Some False"
      by simp_all
    define w1 where "w1 = w\<lparr>trace := trace w @ restore_events (show_message v) ?d,
       hv := (hv w)(?d \<mapsto> True),
       fs := (if restore_unlinks w then (fs w)(get_save_path ?d := None) else fs w)\<rparr>"
    have step: "then_do (is_saved v ?d) (\<lambda>saved. if saved then restore v ?d else ret ()) w = (Returns (), w1)"
      using False restore_restorable [OF ok, of v]
      by (simp add: then_do_def is_saved_def path_exists_def w1_def restore_events_def)
    have others: "\<forall>it' \<in> set its. domain it' \<noteq> ?d"
    proof
      fix it' assume "it' \<in> set its"
      then have "domain it' \<in> set (map domain its)" by simp
      moreover from Cons.prems(1) have "?d \<notin> set (map domain its)" by simp
      ultimately show "domain it' \<noteq> ?d" by metis
    qed
    have same_fs: "\<forall>it' \<in> set its. fs w1 (get_save_path (domain it')) = fs w (get_save_path (domain it'))"
      using others by (simp add: w1_def get_save_path_inj)
    have same_hv: "\<forall>it' \<in> set its. hv w1 (domain it') = hv w (domain it')"
      using others by (simp add: w1_def)
    from Cons.prems have "distinct (map domain its)" by simp
    moreover have "\<forall>it \<in> set its. fs w1 (get_save_path (domain it)) \<noteq> None \<longrightarrow>
           fs w1 (get_save_path (domain it)) = Some (SaveImage (domain it)) \<and> hv w1 (domain it) = Some False"
      using Cons.prems(2) same_fs same_hv by simp
    ultimately obtain w' where IH: "for_each (\<lambda>item.
        then_do (is_saved v (domain item)) (\<lambda>saved.
          if saved then restore v (domain item) else ret ())) its w1 = (Returns (), w')"
      "trace w' = trace w1 @ concat (map (\<lambda>it. restore_events (show_message v) (domain it))
          (filter (\<lambda>it. fs w1 (get_save_path (domain it)) \<noteq> None) its))"
      using Cons.IH [of w1] by blast
    have filt: "filter (\<lambda>it. fs w1 (get_save_path (domain it)) \<noteq> None) its
              = filter (\<lambda>it. fs w (get_save_path (domain it)) \<noteq> None) its"
      using same_fs by (intro filter_cong) simp_all
    have "trace w1 = trace w @ restore_events (show_message v) ?d"
      by (simp add: w1_def)
    then show ?thesis using False step IH filt by simp
  qed
qed

lemmas run_defs = restore_all_def save_all_def then_do_def is_saved_def is_running_def
  restore_def save_def conn_restore_def dom_save_def lookupByName_def isActive_def
  emit_def log_def Let_def path_exists_def get_save_path_def ret_def

section \<open>Restore All\<close>

text \<open>
  Claim C8. When the configured domains are pairwise different and every configured domain
  with a save file can be restored (the file is its own image and the domain is stopped),
  Restore All returns, and what it did is exactly one \<open>restore\<close> for every configured
  domain whose save file exists at the start, in configuration order: the notification
  \<open>restoring {domain}\<close>, the restore from its save path, the notification
  \<open>restored from {path}\<close>. Nothing is done for a domain without a save file. For the
  configuration a (saved), b (not saved), c (saved) this is: a, then c, and no restore of b.
\<close>

theorem restore_all_restores_saved_in_order:
  assumes "distinct (map domain (items (config self)))"
    and "\<forall>it \<in> set (items (config self)).
           fs w (get_save_path (domain it)) \<noteq> None \<longrightarrow>
           fs w (get_save_path (domain it)) = Some (SaveImage (domain it))
           \<and> hv w (domain it) = Some False"
  shows "\<exists>w'. restore_all self w = (Returns (), w')
     \<and> trace w' = trace w @
          concat (map (\<lambda>it.
              [notification (show_message (virt self)) (''restoring '' @ domain it),
               Libvirt (ConnRestore (''/var/lib/libvirt/qemu/save/'' @ domain it @ ''.save'')),
               notification (show_message (virt self))
                 (''restored from /var/lib/libvirt/qemu/save/'' @ domain it @ ''.save'')])
            (filter (\<lambda>it. fs w (''/var/lib/libvirt/qemu/save/'' @ domain it @ ''.save'') \<noteq> None)
               (items (config self))))"
  using restore_loop [OF assms, of "virt self"]
  by (simp add: restore_all_def restore_events_def get_save_path_def)

theorem restore_all_restores_saved_in_order_witness:
  "distinct (map domain (items (config abc_tray)))
   \<and> (\<exists>w'. restore_all abc_tray abc_world = (Returns (), w')
     \<and> trace w' =
          [Print ''restoring a'',
           Libvirt (ConnRestore ''/var/lib/libvirt/qemu/save/a.save''),
           Print ''restored from /var/lib/libvirt/qemu/save/a.save'',
           Print ''restoring c'',
           Libvirt (ConnRestore ''/var/lib/libvirt/qemu/save/c.save''),
           Print ''restored from /var/lib/libvirt/qemu/save/c.save''])"
proof -
  have d: "distinct (map domain (items (config abc_tray)))"
    by (simp add: abc_tray_def)
  have r: "\<forall>it \<in> set (items (config abc_tray)).
           fs abc_world (get_save_path (domain it)) \<noteq> None \<longrightarrow>
           fs abc_world (get_save_path (domain it)) = Some (SaveImage (domain it))
           \<and> hv abc_world (domain it) = Some False"
    by (simp add: abc_tray_def abc_world_def get_save_path_def)
  show ?thesis
    using d restore_all_restores_saved_in_order [OF d r]
    by (simp add: abc_tray_def abc_world_def)
qed

section \<open>A failure ends the batch\<close>

text \<open>
  Claim C3 says that a failure for one domain does not stop the batch. It does. Restore
  All over a, b where both have a save image and a is running: the restore of a raises,
  the exception leaves the loop, and b, stopped and with its image in place, is never
  restored. Save All over ghost, a where no domain ghost is defined: the query of ghost
  raises, and the running domain a is never saved.
\<close>

theorem batch_continues_after_failure_counterexample:
  "restore_all (tray_of [''a'', ''b'']) busy_world =
     (Raises libvirtError,
      busy_world\<lparr>trace := [Print ''restoring a'',
                           Libvirt (ConnRestore ''/var/lib/libvirt/qemu/save/a.save'')]\<rparr>)
   \<and> fs busy_world ''/var/lib/libvirt/qemu/save/b.save'' = Some (SaveImage ''b'')
   \<and> hv busy_world ''b'' = Some False
   \<and> save_all (tray_of [''ghost'', ''a'']) busy_world =
     (Raises libvirtError, busy_world\<lparr>trace := [Libvirt (LookupByName ''ghost'')]\<rparr>)
   \<and> hv busy_world ''a'' = Some True"
  by (simp add: tray_of_def busy_world_def run_defs)

lemma for_each_abort:
  "for_each body pre s = (Returns (), s1) \<Longrightarrow> for_each body [x] s1 = (Raises e, s2) \<Longrightarrow>
   for_each body (pre @ x # post) s = (Raises e, s2)"
  by (auto simp: for_each_append split: prod.splits outcome.splits)

text \<open>
  Claim C3, amended. Save All and Restore All go through the configured domains in
  configuration order and stop at the first domain for which a call raises: when the
  domains before it have been processed without an exception and processing that domain
  raises, the batch raises that exception in the state reached at that point, whatever
  domains follow in the configuration.
\<close>

theorem batch_stops_at_first_failure:
  "(restore_all \<lparr>virt = v, config = \<lparr>items = pre\<rparr>\<rparr> w = (Returns (), w1)
      \<and> restore_all \<lparr>virt = v, config = \<lparr>items = [it]\<rparr>\<rparr> w1 = (Raises e, w2)
    \<longrightarrow> restore_all \<lparr>virt = v, config = \<lparr>items = pre @ it # post\<rparr>\<rparr> w = (Raises e, w2))
   \<and> (save_all \<lparr>virt = v, config = \<lparr>items = pre\<rparr>\<rparr> w = (Returns (), w1)
      \<and> save_all \<lparr>virt = v, config = \<lparr>items = [it]\<rparr>\<rparr> w1 = (Raises e, w2)
    \<longrightarrow> save_all \<lparr>virt = v, config = \<lparr>items = pre @ it # post\<rparr>\<rparr> w = (Raises e, w2))"
  unfolding restore_all_def save_all_def VirtTray.select_convs Config.select_convs
  by (blast intro: for_each_abort)

theorem batch_stops_at_first_failure_witness:
  "(\<exists>w1 w2.
      restore_all \<lparr>virt = \<lparr>show_message = PrintSink\<rparr>,
                   config = \<lparr>items = [\<lparr>icon = ''c.png'', domain = ''c''\<rparr>]\<rparr>\<rparr> busy_world
        = (Returns (), w1)
    \<and> restore_all \<lparr>virt = \<lparr>show_message = PrintSink\<rparr>,
                   config = \<lparr>items = [\<lparr>icon = ''a.png'', domain = ''a''\<rparr>]\<rparr>\<rparr> w1
        = (Raises libvirtError, w2)
    \<and> restore_all \<lparr>virt = \<lparr>show_message = PrintSink\<rparr>,
                   config = \<lparr>items = [\<lparr>icon = ''c.png'', domain = ''c''\<rparr>]
                     @ \<lparr>icon = ''a.png'', domain = ''a''\<rparr>
                     # [\<lparr>icon = ''b.png'', domain = ''b''\<rparr>]\<rparr>\<rparr> busy_world
        = (Raises libvirtError, w2)
    \<and> trace w2 =
        [Print ''restoring c'',
         Libvirt (ConnRestore ''/var/lib/libvirt/qemu/save/c.save''),
         Print ''restored from /var/lib/libvirt/qemu/save/c.save'',
         Print ''restoring a'',
         Libvirt (ConnRestore ''/var/lib/libvirt/qemu/save/a.save'')])
   \<and> (\<exists>w1 w2.
      save_all \<lparr>virt = \<lparr>show_message = PrintSink\<rparr>,
                config = \<lparr>items = [\<lparr>icon = ''a.png'', domain = ''a''\<rparr>]\<rparr>\<rparr> busy_world
        = (Returns (), w1)
    \<and> save_all \<lparr>virt = \<lparr>show_message = PrintSink\<rparr>,
                config = \<lparr>items = [\<lparr>icon = ''ghost.png'', domain = ''ghost''\<rparr>]\<rparr>\<rparr> w1
        = (Raises libvirtError, w2)
    \<and> save_all \<lparr>virt = \<lparr>show_message = PrintSink\<rparr>,
                config = \<lparr>items = [\<lparr>icon = ''a.png'', domain = ''a''\<rparr>]
                  @ \<lparr>icon = ''ghost.png'', domain = ''ghost''\<rparr>
                  # [\<lparr>icon = ''b.png'', domain = ''b''\<rparr>]\<rparr>\<rparr> busy_world
        = (Raises libvirtError, w2)
    \<and> trace w2 =
        [Libvirt (LookupByName ''a''), Libvirt (IsActive ''a''),
         Print ''saving a'',
         Libvirt (LookupByName ''a''),
         Libvirt (DomainSave ''a'' ''/var/lib/libvirt/qemu/save/a.save''),
         Print ''saved to /var/lib/libvirt/qemu/save/a.save'',
         Libvirt (LookupByName ''ghost'')])"
proof -
  let ?v = "\<lparr>show_message = PrintSink\<rparr>"
  let ?a = "\<lparr>icon = ''a.png'', domain = ''a''\<rparr>"
  let ?b = "\<lparr>icon = ''b.png'', domain = ''b''\<rparr>"
  let ?c = "\<lparr>icon = ''c.png'', domain = ''c''\<rparr>"
  let ?g = "\<lparr>icon = ''ghost.png'', domain = ''ghost''\<rparr>"
  define r1 where "r1 = snd (restore_all \<lparr>virt = ?v, config = \<lparr>items = [?c]\<rparr>\<rparr> busy_world)"
  define r2 where "r2 = snd (restore_all \<lparr>virt = ?v, config = \<lparr>items = [?a]\<rparr>\<rparr> r1)"
  define s1 where "s1 = snd (save_all \<lparr>virt = ?v, config = \<lparr>items = [?a]\<rparr>\<rparr> busy_world)"
  define s2 where "s2 = snd (save_all \<lparr>virt = ?v, config = \<lparr>items = [?g]\<rparr>\<rparr> s1)"
  have r1: "restore_all \<lparr>virt = ?v, config = \<lparr>items = [?c]\<rparr>\<rparr> busy_world = (Returns (), r1)"
    by (simp add: r1_def busy_world_def run_defs)
  have r2: "restore_all \<lparr>virt = ?v, config = \<lparr>items = [?a]\<rparr>\<rparr> r1 = (Raises libvirtError, r2)"
    by (simp add: r2_def r1_def busy_world_def run_defs)
  have rt: "trace r2 =
        [Print ''restoring c'',
         Libvirt (ConnRestore ''/var/lib/libvirt/qemu/save/c.save''),
         Print ''restored from /var/lib/libvirt/qemu/save/c.save'',
         Print ''restoring a'',
         Libvirt (ConnRestore ''/var/lib/libvirt/qemu/save/a.save'')]"
    by (simp add: r2_def r1_def busy_world_def run_defs)
  have s1: "save_all \<lparr>virt = ?v, config = \<lparr>items = [?a]\<rparr>\<rparr> busy_world = (Returns (), s1)"
    by (simp add: s1_def busy_world_def run_defs)
  have s2: "save_all \<lparr>virt = ?v, config = \<lparr>items = [?g]\<rparr>\<rparr> s1 = (Raises libvirtError, s2)"
    by (simp add: s2_def s1_def busy_world_def run_defs)
  have st: "trace s2 =
        [Libvirt (LookupByName ''a''), Libvirt (IsActive ''a''),
         Print ''saving a'',
         Libvirt (LookupByName ''a''),
         Libvirt (DomainSave ''a'' ''/var/lib/libvirt/qemu/save/a.save''),
         Print ''saved to /var/lib/libvirt/qemu/save/a.save'',
         Libvirt (LookupByName ''ghost'')]"
    by (simp add: s2_def s1_def busy_world_def run_defs)
  have "restore_all \<lparr>virt = ?v, config = \<lparr>items = [?c] @ ?a # [?b]\<rparr>\<rparr> busy_world
          = (Raises libvirtError, r2)"
    using batch_stops_at_first_failure [of ?v "[?c]" busy_world r1 ?a libvirtError r2 "[?b]"] r1 r2
    by blast
  moreover have "save_all \<lparr>virt = ?v, config = \<lparr>items = [?a] @ ?g # [?b]\<rparr>\<rparr> busy_world
          = (Raises libvirtError, s2)"
    using batch_stops_at_first_failure [of ?v "[?a]" busy_world s1 ?g libvirtError s2 "[?b]"] s1 s2
    by blast
  ultimately show ?thesis
    using r1 r2 rt s1 s2 st by blast
qed

section \<open>Which sink a notification goes to\<close>

lemma emits_onlyI:
  "(\<And>w. \<exists>evs. trace (snd (p w)) = trace w @ evs \<and> list_all P evs) \<Longrightarrow> emits_only P p"
  by (simp add: emits_only_def)

lemma emits_onlyD:
  "emits_only P p \<Longrightarrow> \<exists>evs. trace (snd (p w)) = trace w @ evs \<and> list_all P evs"
  by (simp add: emits_only_def)

lemma emits_only_ret: "emits_only P (ret a)"
  by (simp add: emits_only_def ret_def)

lemma emits_only_then_do:
  assumes "emits_only P m" and "\<And>a. emits_only P (f a)"
  shows "emits_only P (then_do m f)"
proof (rule emits_onlyI)
  fix w
  obtain r w1 where m: "m w = (r, w1)" by (cases "m w")
  from emits_onlyD [OF assms(1), of w] m
  obtain evs1 where e1: "trace w1 = trace w @ evs1" "list_all P evs1" by auto
  show "\<exists>evs. trace (snd (then_do m f w)) = trace w @ evs \<and> list_all P evs"
  proof (cases r)
    case (Returns a)
    from emits_onlyD [OF assms(2), of a w1]
    obtain evs2 where e2: "trace (snd (f a w1)) = trace w1 @ evs2" "list_all P evs2" by auto
    have "trace (snd (then_do m f w)) = trace w @ (evs1 @ evs2)"
      using m Returns e1 e2 by (simp add: then_do_def)
    moreover have "list_all P (evs1 @ evs2)" using e1 e2 by simp
    ultimately show ?thesis by blast
  next
    case (Raises e)
    then show ?thesis using m e1 by (auto simp: then_do_def)
  qed
qed

lemma emits_only_for_each:
  assumes "\<And>x. emits_only P (body x)"
  shows "emits_only P (for_each body xs)"
proof (induction xs)
  case Nil
  show ?case by (simp add: emits_only_def)
next
  case (Cons x xs)
  have "for_each body (x # xs) = then_do (body x) (\<lambda>_. for_each body xs)"
    by (rule ext) (simp add: then_do_def split: prod.splits outcome.splits)
  then show ?case
    using emits_only_then_do [OF assms Cons] by simp
qed

lemma emits_only_emit: "emits_only (session_event s) (emit s msg)"
  by (cases s) (simp_all add: emits_only_def emit_def log_def)

lemma emits_only_libvirt:
  "emits_only (session_event s) (lookupByName d)"
  "emits_only (session_event s) (isActive d)"
  "emits_only (session_event s) (dom_create d)"
  "emits_only (session_event s) (dom_destroy d)"
  "emits_only (session_event s) (dom_save d p)"
  "emits_only (session_event s) (conn_restore p)"
  by (simp_all add: emits_only_def lookupByName_def isActive_def dom_create_def dom_destroy_def
      dom_save_def conn_restore_def log_def Let_def split: option.splits fs_node.splits)

lemma emits_only_is_saved: "emits_only P (is_saved v d)"
  by (simp add: emits_only_def is_saved_def)

lemmas emits_only_intros = emits_only_then_do emits_only_ret emits_only_emit emits_only_libvirt
  emits_only_is_saved emits_only_for_each

lemma emits_only_session:
  "emits_only (session_event (show_message v)) (save v d)"
  "emits_only (session_event (show_message v)) (restore v d)"
  "emits_only (session_event (show_message v)) (start v d)"
  "emits_only (session_event (show_message v)) (force_shutdown v d)"
  "emits_only (session_event (show_message v)) (is_running v d)"
  by (simp_all add: save_def restore_def start_def force_shutdown_def is_running_def
      emits_only_intros)

lemma emits_only_batch:
  "emits_only (session_event (show_message (virt self))) (save_all self)"
  "emits_only (session_event (show_message (virt self))) (restore_all self)"
  by (simp_all add: save_all_def restore_all_def emits_only_intros emits_only_session)

lemma create_tray_icon_sink:
  "create_tray_icon self item w = (Returns t, w') \<Longrightarrow>
   tray_item t = item \<and> show_message (tray_virt t) = TraySink item"
  by (auto simp: create_tray_icon_def Let_def split: prod.splits outcome.splits)

lemma create_tray_icons_sink:
  "create_tray_icons self its acc w = (Returns ts, w') \<Longrightarrow>
   \<forall>t \<in> set acc. show_message (tray_virt t) = TraySink (tray_item t) \<and> tray_item t \<in> S \<Longrightarrow>
   set its \<subseteq> S \<Longrightarrow>
   \<forall>t \<in> set ts. show_message (tray_virt t) = TraySink (tray_item t) \<and> tray_item t \<in> S"
proof (induction its arbitrary: acc w)
  case Nil
  then show ?case by simp
next
  case (Cons item its)
  from Cons.prems(1) obtain t w1 where
    c: "create_tray_icon self item w = (Returns t, w1)"
    and r: "create_tray_icons self its (acc @ [t]) w1 = (Returns ts, w')"
    by (auto split: prod.splits outcome.splits)
  from create_tray_icon_sink [OF c] Cons.prems(2,3)
  have "\<forall>t \<in> set (acc @ [t]). show_message (tray_virt t) = TraySink (tray_item t) \<and> tray_item t \<in> S"
    by auto
  moreover from Cons.prems(3) have "set its \<subseteq> S" by simp
  ultimately show ?case using Cons.IH [OF r] by blast
qed

lemma start_stopped:
  assumes "hv w d = Some False"
  shows "start v d w =
    (Returns (),
     w\<lparr>trace := trace w @
          [notification (show_message v) (''starting '' @ d),
           Libvirt (LookupByName d),
           Libvirt (Create d),
           notification (show_message v) (''started '' @ d)],
       hv := (hv w)(d \<mapsto> True)\<rparr>)"
  using assms
  by (simp add: start_def then_do_def emit_def lookupByName_def dom_create_def log_def Let_def)

lemma force_shutdown_running:
  assumes "hv w d = Some True"
  shows "force_shutdown v d w =
    (Returns (),
     w\<lparr>trace := trace w @
          [notification (show_message v) (''force shutting down '' @ d),
           Libvirt (LookupByName d),
           Libvirt (Destroy d),
           notification (show_message v) (''force shut down '' @ d)],
       hv := (hv w)(d \<mapsto> False)\<rparr>)"
  using assms
  by (simp add: force_shutdown_def then_do_def emit_def lookupByName_def dom_destroy_def
      log_def Let_def)

lemma save_step:
  assumes "hv w d = Some r"
  shows "then_do (is_running v d) (\<lambda>running. if running then save v d else ret ()) w =
    (Returns (),
     w\<lparr>trace := trace w @ save_events (show_message v) d r,
       hv := (if r then (hv w)(d \<mapsto> False) else hv w),
       fs := (if r then (fs w)(get_save_path d \<mapsto> SaveImage d) else fs w)\<rparr>)"
proof (cases r)
  case True
  let ?w1 = "w\<lparr>trace := trace w @ [Libvirt (LookupByName d), Libvirt (IsActive d)]\<rparr>"
  have "hv ?w1 d = Some True" using assms True by simp
  from save_running [OF this, of v] is_running_known [OF assms, of v] True
  show ?thesis by (simp add: then_do_def save_events_def)
next
  case False
  with is_running_known [OF assms, of v] show ?thesis
    by (simp add: then_do_def save_events_def ret_def)
qed

lemma save_loop:
  assumes "distinct (map domain its)"
    and "\<forall>it \<in> set its. hv w (domain it) \<noteq> None"
  shows "\<exists>w'. for_each (\<lambda>item.
        then_do (is_running v (domain item)) (\<lambda>running.
          if running then save v (domain item) else ret ())) its w = (Returns (), w')
     \<and> trace w' = trace w @ concat (map (\<lambda>it.
          save_events (show_message v) (domain it) (hv w (domain it) = Some True)) its)"
  using assms
proof (induction its arbitrary: w)
  case Nil
  then show ?case by simp
next
  case (Cons it its)
  let ?d = "domain it"
  from Cons.prems(2) obtain r where r: "hv w ?d = Some r" by auto
  define w1 where "w1 = w\<lparr>trace := trace w @ save_events (show_message v) ?d r,
       hv := (if r then (hv w)(?d \<mapsto> False) else hv w),
       fs := (if r then (fs w)(get_save_path ?d \<mapsto> SaveImage ?d) else fs w)\<rparr>"
  have step: "then_do (is_running v ?d) (\<lambda>running. if running then save v ?d else ret ()) w
      = (Returns (), w1)"
    using save_step [OF r, of v] by (simp add: w1_def)
  have others: "\<forall>it' \<in> set its. domain it' \<noteq> ?d"
  proof
    fix it' assume "it' \<in> set its"
    then have "domain it' \<in> set (map domain its)" by simp
    moreover from Cons.prems(1) have "?d \<notin> set (map domain its)" by simp
    ultimately show "domain it' \<noteq> ?d" by metis
  qed
  have same_hv: "\<forall>it' \<in> set its. hv w1 (domain it') = hv w (domain it')"
    using others by (simp add: w1_def)
  from Cons.prems have "distinct (map domain its)" by simp
  moreover have "\<forall>it \<in> set its. hv w1 (domain it) \<noteq> None"
    using Cons.prems(2) same_hv by simp
  ultimately obtain w' where IH: "for_each (\<lambda>item.
        then_do (is_running v (domain item)) (\<lambda>running.
          if running then save v (domain item) else ret ())) its w1 = (Returns (), w')"
      "trace w' = trace w1 @ concat (map (\<lambda>it.
          save_events (show_message v) (domain it) (hv w1 (domain it) = Some True)) its)"
    using Cons.IH [of w1] by blast
  have m: "map (\<lambda>it. save_events (show_message v) (domain it) (hv w1 (domain it) = Some True)) its
         = map (\<lambda>it. save_events (show_message v) (domain it) (hv w (domain it) = Some True)) its"
    using same_hv by (intro map_cong) simp_all
  have "trace w1 = trace w @ save_events (show_message v) ?d r"
    by (simp add: w1_def)
  moreover have "(hv w ?d = Some True) = r" using r by simp
  ultimately show ?case using step IH m by simp
qed

lemma startup_batch_kind:
  "\<exists>evs. trace (snd (triggered (startup_tray cfg) t SaveAll w)) = trace w @ evs
          \<and> list_all (session_event PrintSink) evs"
  "\<exists>evs. trace (snd (triggered (startup_tray cfg) t RestoreAll w)) = trace w @ evs
          \<and> list_all (session_event PrintSink) evs"
proof -
  have p: "show_message (virt (startup_tray cfg)) = PrintSink"
    by (simp add: startup_tray_def)
  show "\<exists>evs. trace (snd (triggered (startup_tray cfg) t SaveAll w)) = trace w @ evs
          \<and> list_all (session_event PrintSink) evs"
    using emits_onlyD [OF emits_only_batch(1), of "startup_tray cfg" w] p
    by (simp add: triggered_def)
  show "\<exists>evs. trace (snd (triggered (startup_tray cfg) t RestoreAll w)) = trace w @ evs
          \<and> list_all (session_event PrintSink) evs"
    using emits_onlyD [OF emits_only_batch(2), of "startup_tray cfg" w] p
    by (simp add: triggered_def)
qed

lemma tray_of_main:
  assumes "main cfg w0 = (Returns ts, w1)" and "t \<in> set ts"
  shows "tray_item t \<in> set (items cfg)"
    and "show_message (tray_virt t) = TraySink (tray_item t)"
proof -
  from assms(1) have "create_tray_icons (startup_tray cfg) (items cfg) [] w0 = (Returns ts, w1)"
    by (simp add: main_def VirtTray_main_def startup_tray_def)
  from create_tray_icons_sink [OF this, of "set (items cfg)"] assms(2)
  show "tray_item t \<in> set (items cfg)" and "show_message (tray_virt t) = TraySink (tray_item t)"
    by auto
qed

lemma single_kind:
  assumes "show_message (tray_virt t) = TraySink (tray_item t)"
  shows "\<forall>a \<in> {Start, ForceShutdown, Save, Restore}.
              \<exists>evs. trace (snd (triggered self t a w)) = trace w @ evs
                \<and> list_all (session_event (TraySink (tray_item t))) evs"
  using assms
    emits_onlyD [OF emits_only_session(1), of "tray_virt t" "domain (tray_item t)" w]
    emits_onlyD [OF emits_only_session(2), of "tray_virt t" "domain (tray_item t)" w]
    emits_onlyD [OF emits_only_session(3), of "tray_virt t" "domain (tray_item t)" w]
    emits_onlyD [OF emits_only_session(4), of "tray_virt t" "domain (tray_item t)" w]
  by (auto simp: triggered_def)

lemma save_all_prints:
  assumes "distinct (map domain (items cfg))"
    and "\<forall>it \<in> set (items cfg). hv w (domain it) \<noteq> None"
  shows "\<exists>w'. triggered (startup_tray cfg) t SaveAll w = (Returns (), w')
     \<and> trace w' = trace w @ concat (map (\<lambda>it.
          [Libvirt (LookupByName (domain it)), Libvirt (IsActive (domain it))] @
          (if hv w (domain it) = Some True
           then [Print (''saving '' @ domain it),
                 Libvirt (LookupByName (domain it)),
                 Libvirt (DomainSave (domain it) (get_save_path (domain it))),
                 Print (''saved to '' @ get_save_path (domain it))]
           else [])) (items cfg))"
  using save_loop [OF assms, of "\<lparr>show_message = PrintSink\<rparr>"]
  by (simp add: triggered_def save_all_def startup_tray_def save_events_def cong: if_cong)

lemma restore_all_prints:
  assumes "distinct (map domain (items cfg))"
    and "\<forall>it \<in> set (items cfg).
           fs w (get_save_path (domain it)) \<noteq> None \<longrightarrow>
           fs w (get_save_path (domain it)) = Some (SaveImage (domain it))
           \<and> hv w (domain it) = Some False"
  shows "\<exists>w'. triggered (startup_tray cfg) t RestoreAll w = (Returns (), w')
     \<and> trace w' = trace w @ concat (map (\<lambda>it.
          [Print (''restoring '' @ domain it),
           Libvirt (ConnRestore (get_save_path (domain it))),
           Print (''restored from '' @ get_save_path (domain it))])
        (filter (\<lambda>it. fs w (get_save_path (domain it)) \<noteq> None) (items cfg)))"
  using restore_loop [OF assms, of "\<lparr>show_message = PrintSink\<rparr>"]
  by (simp add: triggered_def restore_all_def startup_tray_def restore_events_def cong: if_cong)

lemma single_actions_notify_tray:
  assumes s: "show_message (tray_virt t) = TraySink (tray_item t)"
  shows "hv w (domain (tray_item t)) = Some False \<longrightarrow>
          (\<exists>w'. triggered self t Start w = (Returns (), w')
            \<and> trace w' = trace w @
                [TrayMessage (tray_item t) (''starting '' @ domain (tray_item t)),
                 Libvirt (LookupByName (domain (tray_item t))),
                 Libvirt (Create (domain (tray_item t))),
                 TrayMessage (tray_item t) (''started '' @ domain (tray_item t))])"
    and "hv w (domain (tray_item t)) = Some True \<longrightarrow>
          (\<exists>w'. triggered self t ForceShutdown w = (Returns (), w')
            \<and> trace w' = trace w @
                [TrayMessage (tray_item t) (''force shutting down '' @ domain (tray_item t)),
                 Libvirt (LookupByName (domain (tray_item t))),
                 Libvirt (Destroy (domain (tray_item t))),
                 TrayMessage (tray_item t) (''force shut down '' @ domain (tray_item t))])"
    and "hv w (domain (tray_item t)) = Some True \<longrightarrow>
          (\<exists>w'. triggered self t Save w = (Returns (), w')
            \<and> trace w' = trace w @
                [TrayMessage (tray_item t) (''saving '' @ domain (tray_item t)),
                 Libvirt (LookupByName (domain (tray_item t))),
                 Libvirt (DomainSave (domain (tray_item t)) (get_save_path (domain (tray_item t)))),
                 TrayMessage (tray_item t) (''saved to '' @ get_save_path (domain (tray_item t)))])"
    and "fs w (get_save_path (domain (tray_item t))) = Some (SaveImage (domain (tray_item t)))
          \<and> hv w (domain (tray_item t)) = Some False \<longrightarrow>
          (\<exists>w'. triggered self t Restore w = (Returns (), w')
            \<and> trace w' = trace w @
                [TrayMessage (tray_item t) (''restoring '' @ domain (tray_item t)),
                 Libvirt (ConnRestore (get_save_path (domain (tray_item t)))),
                 TrayMessage (tray_item t) (''restored from '' @ get_save_path (domain (tray_item t)))])"
proof -
  let ?d = "domain (tray_item t)"
  show "hv w ?d = Some False \<longrightarrow>
          (\<exists>w'. triggered self t Start w = (Returns (), w')
            \<and> trace w' = trace w @
                [TrayMessage (tray_item t) (''starting '' @ ?d),
                 Libvirt (LookupByName ?d), Libvirt (Create ?d),
                 TrayMessage (tray_item t) (''started '' @ ?d)])"
    using start_stopped [of w ?d "tray_virt t"] s by (simp add: triggered_def)
  show "hv w ?d = Some True \<longrightarrow>
          (\<exists>w'. triggered self t ForceShutdown w = (Returns (), w')
            \<and> trace w' = trace w @
                [TrayMessage (tray_item t) (''force shutting down '' @ ?d),
                 Libvirt (LookupByName ?d), Libvirt (Destroy ?d),
                 TrayMessage (tray_item t) (''force shut down '' @ ?d)])"
    using force_shutdown_running [of w ?d "tray_virt t"] s by (simp add: triggered_def)
  show "hv w ?d = Some True \<longrightarrow>
          (\<exists>w'. triggered self t Save w = (Returns (), w')
            \<and> trace w' = trace w @
                [TrayMessage (tray_item t) (''saving '' @ ?d),
                 Libvirt (LookupByName ?d),
                 Libvirt (DomainSave ?d (get_save_path ?d)),
                 TrayMessage (tray_item t) (''saved to '' @ get_save_path ?d)])"
    using save_running [of w ?d "tray_virt t"] s by (simp add: triggered_def)
  show "fs w (get_save_path ?d) = Some (SaveImage ?d) \<and> hv w ?d = Some False \<longrightarrow>
          (\<exists>w'. triggered self t Restore w = (Returns (), w')
            \<and> trace w' = trace w @
                [TrayMessage (tray_item t) (''restoring '' @ ?d),
                 Libvirt (ConnRestore (get_save_path ?d)),
                 TrayMessage (tray_item t) (''restored from '' @ get_save_path ?d)])"
    using restore_restorable [of w ?d "tray_virt t"] s by (simp add: triggered_def)
qed

text \<open>
  Claim C10. The session that \<open>main\<close> builds at startup, which the tray orchestrator keeps
  and Save All and Restore All use, has the default sink \<open>print\<close>. Whatever Save All or
  Restore All, triggered from any menu, add to the trace is a hypervisor call or a printed
  line, never a message at a tray icon. And they do print: over pairwise different
  configured domains that the hypervisor knows, Save All returns after querying every
  domain in configuration order and, for each running one, printing \<open>saving {domain}\<close>,
  saving it and printing \<open>saved to {path}\<close>; over pairwise different configured domains
  whose existing save files can be restored, Restore All returns after printing
  \<open>restoring {domain}\<close>, restoring and printing \<open>restored from {path}\<close> for each domain
  with a save file. Every tray icon that \<open>main\<close> created belongs to a configured item and
  has a session of its own whose sink shows the message at that icon. Whatever Start,
  Force Shutdown, Save or Restore of its menu add to the trace is a hypervisor call or a
  message at that icon, never a printed line; and where the hypervisor call succeeds,
  each of the four shows its two messages (\<open>starting\<close>/\<open>started\<close>, \<open>force shutting
  down\<close>/\<open>force shut down\<close>, \<open>saving\<close>/\<open>saved to\<close>, \<open>restoring\<close>/\<open>restored from\<close>) at
  that icon, around the call.
\<close>

theorem batch_notifications_use_print_sink:
  "show_message (virt (startup_tray cfg)) = PrintSink
   \<and> (\<exists>evs. trace (snd (triggered (startup_tray cfg) t SaveAll w)) = trace w @ evs
          \<and> list_all (session_event PrintSink) evs)
   \<and> (\<exists>evs. trace (snd (triggered (startup_tray cfg) t RestoreAll w)) = trace w @ evs
          \<and> list_all (session_event PrintSink) evs)
   \<and> (distinct (map domain (items cfg))
        \<and> (\<forall>it \<in> set (items cfg). hv w (domain it) \<noteq> None) \<longrightarrow>
        (\<exists>w'. triggered (startup_tray cfg) t SaveAll w = (Returns (), w')
          \<and> trace w' = trace w @ concat (map (\<lambda>it.
               [Libvirt (LookupByName (domain it)), Libvirt (IsActive (domain it))] @
               (if hv w (domain it) = Some True
                then [Print (''saving '' @ domain it),
                      Libvirt (LookupByName (domain it)),
                      Libvirt (DomainSave (domain it) (get_save_path (domain it))),
                      Print (''saved to '' @ get_save_path (domain it))]
                else [])) (items cfg))))
   \<and> (distinct (map domain (items cfg))
        \<and> (\<forall>it \<in> set (items cfg).
              fs w (get_save_path (domain it)) \<noteq> None \<longrightarrow>
              fs w (get_save_path (domain it)) = Some (SaveImage (domain it))
              \<and> hv w (domain it) = Some False) \<longrightarrow>
        (\<exists>w'. triggered (startup_tray cfg) t RestoreAll w = (Returns (), w')
          \<and> trace w' = trace w @ concat (map (\<lambda>it.
               [Print (''restoring '' @ domain it),
                Libvirt (ConnRestore (get_save_path (domain it))),
                Print (''restored from '' @ get_save_path (domain it))])
             (filter (\<lambda>it. fs w (get_save_path (domain it)) \<noteq> None) (items cfg)))))
   \<and> (main cfg w0 = (Returns ts, w1) \<and> t \<in> set ts \<longrightarrow>
        tray_item t \<in> set (items cfg)
        \<and> show_message (tray_virt t) = TraySink (tray_item t)
        \<and> (\<forall>a \<in> {Start, ForceShutdown, Save, Restore}.
              \<exists>evs. trace (snd (triggered (startup_tray cfg) t a w)) = trace w @ evs
                \<and> list_all (session_event (TraySink (tray_item t))) evs)
        \<and> (hv w (domain (tray_item t)) = Some False \<longrightarrow>
             (\<exists>w'. triggered (startup_tray cfg) t Start w = (Returns (), w')
               \<and> trace w' = trace w @
                   [TrayMessage (tray_item t) (''starting '' @ domain (tray_item t)),
                    Libvirt (LookupByName (domain (tray_item t))),
                    Libvirt (Create (domain (tray_item t))),
                    TrayMessage (tray_item t) (''started '' @ domain (tray_item t))]))
        \<and> (hv w (domain (tray_item t)) = Some True \<longrightarrow>
             (\<exists>w'. triggered (startup_tray cfg) t ForceShutdown w = (Returns (), w')
               \<and> trace w' = trace w @
                   [TrayMessage (tray_item t) (''force shutting down '' @ domain (tray_item t)),
                    Libvirt (LookupByName (domain (tray_item t))),
                    Libvirt (Destroy (domain (tray_item t))),
                    TrayMessage (tray_item t) (''force shut down '' @ domain (tray_item t))]))
        \<and> (hv w (domain (tray_item t)) = Some True \<longrightarrow>
             (\<exists>w'. triggered (startup_tray cfg) t Save w = (Returns (), w')
               \<and> trace w' = trace w @
                   [TrayMessage (tray_item t) (''saving '' @ domain (tray_item t)),
                    Libvirt (LookupByName (domain (tray_item t))),
                    Libvirt (DomainSave (domain (tray_item t))
                       (get_save_path (domain (tray_item t)))),
                    TrayMessage (tray_item t)
                       (''saved to '' @ get_save_path (domain (tray_item t)))]))
        \<and> (fs w (get_save_path (domain (tray_item t))) = Some (SaveImage (domain (tray_item t)))
             \<and> hv w (domain (tray_item t)) = Some False \<longrightarrow>
             (\<exists>w'. triggered (startup_tray cfg) t Restore w = (Returns (), w')
               \<and> trace w' = trace w @
                   [TrayMessage (tray_item t) (''restoring '' @ domain (tray_item t)),
                    Libvirt (ConnRestore (get_save_path (domain (tray_item t)))),
                    TrayMessage (tray_item t)
                       (''restored from '' @ get_save_path (domain (tray_item t)))])))"
  (is "?p \<and> ?sa \<and> ?ra \<and> ?sap \<and> ?rap \<and> ?single")
proof -
  have p: ?p by (simp add: startup_tray_def)
  have sa: ?sa by (rule startup_batch_kind(1))
  have ra: ?ra by (rule startup_batch_kind(2))
  have sap: ?sap using save_all_prints [of cfg w t] by blast
  have rap: ?rap using restore_all_prints [of cfg w t] by blast
  have single: ?single
  proof (intro impI, elim conjE)
    assume m: "main cfg w0 = (Returns ts, w1)" and t: "t \<in> set ts"
    note s = tray_of_main [OF m t]
    note k = single_kind [OF s(2), of "startup_tray cfg" w]
    note n = single_actions_notify_tray [OF s(2), of w "startup_tray cfg"]
    from s k n show "tray_item t \<in> set (items cfg)
        \<and> show_message (tray_virt t) = TraySink (tray_item t)
        \<and> (\<forall>a \<in> {Start, ForceShutdown, Save, Restore}.
              \<exists>evs. trace (snd (triggered (startup_tray cfg) t a w)) = trace w @ evs
                \<and> list_all (session_event (TraySink (tray_item t))) evs)
        \<and> (hv w (domain (tray_item t)) = Some False \<longrightarrow>
             (\<exists>w'. triggered (startup_tray cfg) t Start w = (Returns (), w')
               \<and> trace w' = trace w @
                   [TrayMessage (tray_item t) (''starting '' @ domain (tray_item t)),
                    Libvirt (LookupByName (domain (tray_item t))),
                    Libvirt (Create (domain (tray_item t))),
                    TrayMessage (tray_item t) (''started '' @ domain (tray_item t))]))
        \<and> (hv w (domain (tray_item t)) = Some True \<longrightarrow>
             (\<exists>w'. triggered (startup_tray cfg) t ForceShutdown w = (Returns (), w')
               \<and> trace w' = trace w @
                   [TrayMessage (tray_item t) (''force shutting down '' @ domain (tray_item t)),
                    Libvirt (LookupByName (domain (tray_item t))),
                    Libvirt (Destroy (domain (tray_item t))),
                    TrayMessage (tray_item t) (''force shut down '' @ domain (tray_item t))]))
        \<and> (hv w (domain (tray_item t)) = Some True \<longrightarrow>
             (\<exists>w'. triggered (startup_tray cfg) t Save w = (Returns (), w')
               \<and> trace w' = trace w @
                   [TrayMessage (tray_item t) (''saving '' @ domain (tray_item t)),
                    Libvirt (LookupByName (domain (tray_item t))),
                    Libvirt (DomainSave (domain (tray_item t))
                       (get_save_path (domain (tray_item t)))),
                    TrayMessage (tray_item t)
                       (''saved to '' @ get_save_path (domain (tray_item t)))]))
        \<and> (fs w (get_save_path (domain (tray_item t))) = Some (SaveImage (domain (tray_item t)))
             \<and> hv w (domain (tray_item t)) = Some False \<longrightarrow>
             (\<exists>w'. triggered (startup_tray cfg) t Restore w = (Returns (), w')
               \<and> trace w' = trace w @
                   [TrayMessage (tray_item t) (''restoring '' @ domain (tray_item t)),
                    Libvirt (ConnRestore (get_save_path (domain (tray_item t)))),
                    TrayMessage (tray_item t)
                       (''restored from '' @ get_save_path (domain (tray_item t)))]))"
      by (intro conjI)
  qed
  from p sa ra sap rap single show ?thesis by (intro conjI)
qed

lemma main_web01:
  "main \<lparr>items = [web01_item]\<rparr> web01_running = (Returns [web01_tray], web01_started)"
proof -
  have "hv web01_running (domain web01_item) = Some True"
    by (simp add: web01_running_def web01_item_def)
  from set_all_enabled_known [OF this, of "\<lparr>show_message = TraySink web01_item\<rparr>" new_menu]
  show ?thesis
    by (simp add: main_def VirtTray_main_def startup_tray_def create_tray_icon_def Let_def
        web01_tray_def web01_started_def web01_running_def web01_item_def path_exists_def
        get_save_path_def)
qed

theorem batch_notifications_use_print_sink_witness:
  "main \<lparr>items = [web01_item]\<rparr> web01_running = (Returns [web01_tray], web01_started)
   \<and> web01_tray \<in> set [web01_tray]
   \<and> tray_item web01_tray \<in> set (items \<lparr>items = [web01_item]\<rparr>)
   \<and> show_message (tray_virt web01_tray) = TraySink (tray_item web01_tray)
   \<and> show_message (virt (startup_tray \<lparr>items = [web01_item]\<rparr>)) = PrintSink
   \<and> (\<exists>w'. triggered (startup_tray \<lparr>items = [web01_item]\<rparr>) web01_tray SaveAll web01_started
              = (Returns (), w')
        \<and> trace w' = trace web01_started @
            [Libvirt (LookupByName ''web01''), Libvirt (IsActive ''web01''),
             Print ''saving web01'',
             Libvirt (LookupByName ''web01''),
             Libvirt (DomainSave ''web01'' ''/var/lib/libvirt/qemu/save/web01.save''),
             Print ''saved to /var/lib/libvirt/qemu/save/web01.save''])
   \<and> (\<exists>w'. triggered (startup_tray \<lparr>items = [web01_item]\<rparr>) web01_tray RestoreAll web01_saved
              = (Returns (), w')
        \<and> trace w' =
            [Print ''restoring web01'',
             Libvirt (ConnRestore ''/var/lib/libvirt/qemu/save/web01.save''),
             Print ''restored from /var/lib/libvirt/qemu/save/web01.save''])
   \<and> (\<exists>w'. triggered (startup_tray \<lparr>items = [web01_item]\<rparr>) web01_tray Start web01_saved
              = (Returns (), w')
        \<and> trace w' =
            [TrayMessage web01_item ''starting web01'',
             Libvirt (LookupByName ''web01''),
             Libvirt (Create ''web01''),
             TrayMessage web01_item ''started web01''])
   \<and> (\<exists>w'. triggered (startup_tray \<lparr>items = [web01_item]\<rparr>) web01_tray ForceShutdown
              web01_started = (Returns (), w')
        \<and> trace w' = trace web01_started @
            [TrayMessage web01_item ''force shutting down web01'',
             Libvirt (LookupByName ''web01''),
             Libvirt (Destroy ''web01''),
             TrayMessage web01_item ''force shut down web01''])
   \<and> (\<exists>w'. triggered (startup_tray \<lparr>items = [web01_item]\<rparr>) web01_tray Save web01_started
              = (Returns (), w')
        \<and> trace w' = trace web01_started @
            [TrayMessage web01_item ''saving web01'',
             Libvirt (LookupByName ''web01''),
             Libvirt (DomainSave ''web01'' ''/var/lib/libvirt/qemu/save/web01.save''),
             TrayMessage web01_item ''saved to /var/lib/libvirt/qemu/save/web01.save''])
   \<and> (\<exists>w'. triggered (startup_tray \<lparr>items = [web01_item]\<rparr>) web01_tray Restore web01_saved
              = (Returns (), w')
        \<and> trace w' =
            [TrayMessage web01_item ''restoring web01'',
             Libvirt (ConnRestore ''/var/lib/libvirt/qemu/save/web01.save''),
             TrayMessage web01_item ''restored from /var/lib/libvirt/qemu/save/web01.save''])"
proof -
  let ?cfg = "\<lparr>items = [web01_item]\<rparr>"
  have m: "main ?cfg web01_running = (Returns [web01_tray], web01_started)"
    by (rule main_web01)
  have t: "web01_tray \<in> set [web01_tray]" by simp
  have ti: "tray_item web01_tray = web01_item" by (simp add: web01_tray_def)
  have d: "domain web01_item = ''web01''" by (simp add: web01_item_def)
  have p: "get_save_path ''web01'' = ''/var/lib/libvirt/qemu/save/web01.save''"
    by (simp add: get_save_path_def)
  have dist: "distinct (map domain (items ?cfg))" by simp
  have run: "hv web01_started ''web01'' = Some True"
    by (simp add: web01_started_def web01_running_def)
  have stopped: "hv web01_saved ''web01'' = Some False"
    by (simp add: web01_saved_def)
  have img: "fs web01_saved ''/var/lib/libvirt/qemu/save/web01.save'' = Some (SaveImage ''web01'')"
    by (simp add: web01_saved_def)
  have tr0: "trace web01_saved = []" by (simp add: web01_saved_def)
  note A = batch_notifications_use_print_sink
    [where cfg = ?cfg and t = web01_tray and w = web01_started and ?w0.0 = web01_running
       and ts = "[web01_tray]" and ?w1.0 = web01_started]
  note B = batch_notifications_use_print_sink
    [where cfg = ?cfg and t = web01_tray and w = web01_saved and ?w0.0 = web01_running
       and ts = "[web01_tray]" and ?w1.0 = web01_started]
  from A m t have A': "tray_item web01_tray \<in> set (items ?cfg)"
    "show_message (tray_virt web01_tray) = TraySink (tray_item web01_tray)"
    "show_message (virt (startup_tray ?cfg)) = PrintSink"
    by simp_all
  have sa: "\<exists>w'. triggered (startup_tray ?cfg) web01_tray SaveAll web01_started = (Returns (), w')
        \<and> trace w' = trace web01_started @
            [Libvirt (LookupByName ''web01''), Libvirt (IsActive ''web01''),
             Print ''saving web01'',
             Libvirt (LookupByName ''web01''),
             Libvirt (DomainSave ''web01'' ''/var/lib/libvirt/qemu/save/web01.save''),
             Print ''saved to /var/lib/libvirt/qemu/save/web01.save'']"
    using A [THEN conjunct2, THEN conjunct2, THEN conjunct2, THEN conjunct1] run
    by (simp add: d p)
  have ra: "\<exists>w'. triggered (startup_tray ?cfg) web01_tray RestoreAll web01_saved = (Returns (), w')
        \<and> trace w' =
            [Print ''restoring web01'',
             Libvirt (ConnRestore ''/var/lib/libvirt/qemu/save/web01.save''),
             Print ''restored from /var/lib/libvirt/qemu/save/web01.save'']"
    using B [THEN conjunct2, THEN conjunct2, THEN conjunct2, THEN conjunct2, THEN conjunct1]
      stopped img
    by (simp add: d p tr0)
  note As = A [THEN conjunct2, THEN conjunct2, THEN conjunct2, THEN conjunct2, THEN conjunct2,
      rule_format, OF conjI, OF m t]
  note Bs = B [THEN conjunct2, THEN conjunct2, THEN conjunct2, THEN conjunct2, THEN conjunct2,
      rule_format, OF conjI, OF m t]
  have st: "\<exists>w'. triggered (startup_tray ?cfg) web01_tray Start web01_saved = (Returns (), w')
        \<and> trace w' =
            [TrayMessage web01_item ''starting web01'',
             Libvirt (LookupByName ''web01''),
             Libvirt (Create ''web01''),
             TrayMessage web01_item ''started web01'']"
    using Bs stopped by (simp add: ti d p tr0)
  have fo: "\<exists>w'. triggered (startup_tray ?cfg) web01_tray ForceShutdown web01_started
              = (Returns (), w')
        \<and> trace w' = trace web01_started @
            [TrayMessage web01_item ''force shutting down web01'',
             Libvirt (LookupByName ''web01''),
             Libvirt (Destroy ''web01''),
             TrayMessage web01_item ''force shut down web01'']"
    using As run by (simp add: ti d p)
  have sv: "\<exists>w'. triggered (startup_tray ?cfg) web01_tray Save web01_started = (Returns (), w')
        \<and> trace w' = trace web01_started @
            [TrayMessage web01_item ''saving web01'',
             Libvirt (LookupByName ''web01''),
             Libvirt (DomainSave ''web01'' ''/var/lib/libvirt/qemu/save/web01.save''),
             TrayMessage web01_item ''saved to /var/lib/libvirt/qemu/save/web01.save'']"
    using As run by (simp add: ti d p)
  have re: "\<exists>w'. triggered (startup_tray ?cfg) web01_tray Restore web01_saved = (Returns (), w')
        \<and> trace w' =
            [TrayMessage web01_item ''restoring web01'',
             Libvirt (ConnRestore ''/var/lib/libvirt/qemu/save/web01.save''),
             TrayMessage web01_item ''restored from /var/lib/libvirt/qemu/save/web01.save'']"
    using Bs stopped img by (simp add: ti d p tr0)
  from m t A' sa ra st fo sv re show ?thesis by (intro conjI)
qed

section \<open>Opening the console: bounded polling\<close>

lemma try_get_wmctrl_item_eq:
  "try_get_wmctrl_item P w =
     (case parse_listing (shell w (trace w) ''wmctrl -l'') of
        Returns its \<Rightarrow> Returns (first_target P its)
      | Raises e \<Rightarrow> Raises e,
      log (Exec ''wmctrl -l'') w)"
  by (simp add: try_get_wmctrl_item_def then_do_def get_wmctrl_items_def execute_command_def
      ret_def split: outcome.splits)

lemma snd_try_get_wmctrl_item [simp]:
  "snd (try_get_wmctrl_item P w) = log (Exec ''wmctrl -l'') w"
  by (simp add: try_get_wmctrl_item_eq)

lemma after_polls_Suc:
  "after_polls (Suc k) w = after_polls k (log Sleep (log (Exec ''wmctrl -l'') w))"
  by (simp add: after_polls_def log_def)

lemma after_polls_0 [simp]: "after_polls 0 w = w"
  by (simp add: after_polls_def)

lemma focus_loop_bound:
  "\<exists>evs. trace (snd (focus_loop n d w)) = trace w @ evs
      \<and> count_list evs (Exec ''wmctrl -l'') \<le> n \<and> count_list evs Sleep \<le> n"
proof (induction n arbitrary: w)
  case 0
  show ?case by simp
next
  case (Suc n)
  obtain r w1 where t: "try_get_wmctrl_item (virt_manager_target_title d) w = (r, w1)"
    by (cases "try_get_wmctrl_item (virt_manager_target_title d) w")
  then have w1: "w1 = log (Exec ''wmctrl -l'') w"
    using snd_try_get_wmctrl_item [of "virt_manager_target_title d" w] by simp
  show ?case
  proof (cases r)
    case (Raises e)
    with t w1 show ?thesis by (simp add: log_def)
  next
    case (Returns p)
    obtain item found where p: "p = (item, found)" by (cases p)
    show ?thesis
    proof (cases found)
      case True
      with t w1 Returns p show ?thesis
        by (cases item) (simp_all add: log_def execute_command_def)
    next
      case False
      from Suc [of "log Sleep w1"] obtain evs where
        e: "trace (snd (focus_loop n d (log Sleep w1))) = trace (log Sleep w1) @ evs"
           "count_list evs (Exec ''wmctrl -l'') \<le> n" "count_list evs Sleep \<le> n"
        by blast
      have "trace (snd (focus_loop (Suc n) d w)) = trace w @ ([Exec ''wmctrl -l'', Sleep] @ evs)"
        using t Returns p False e(1) w1 by (simp add: sleep_100ms_def log_def)
      moreover have "count_list ([Exec ''wmctrl -l'', Sleep] @ evs) (Exec ''wmctrl -l'') \<le> Suc n"
        using e(2) by simp
      moreover have "count_list ([Exec ''wmctrl -l'', Sleep] @ evs) Sleep \<le> Suc n"
        using e(3) by simp
      ultimately show ?thesis by blast
    qed
  qed
qed

lemma focus_loop_gives_up:
  "(\<And>j. j < n \<Longrightarrow>
      fst (try_get_wmctrl_item (virt_manager_target_title d) (after_polls j w)) = Returns (None, False))
   \<Longrightarrow> focus_loop n d w = (Returns (), after_polls n w)"
proof (induction n arbitrary: w)
  case 0
  show ?case by simp
next
  case (Suc n)
  from Suc.prems [of 0]
  have f: "fst (try_get_wmctrl_item (virt_manager_target_title d) w) = Returns (None, False)"
    by simp
  let ?w2 = "log Sleep (log (Exec ''wmctrl -l'') w)"
  have "focus_loop n d ?w2 = (Returns (), after_polls n ?w2)"
  proof (rule Suc.IH)
    fix j assume "j < n"
    then have "Suc j < Suc n" by simp
    from Suc.prems [OF this]
    show "fst (try_get_wmctrl_item (virt_manager_target_title d) (after_polls j ?w2)) = Returns (None, False)"
      by (simp add: after_polls_Suc)
  qed
  moreover have "try_get_wmctrl_item (virt_manager_target_title d) w
      = (Returns (None, False), log (Exec ''wmctrl -l'') w)"
    using f snd_try_get_wmctrl_item [of "virt_manager_target_title d" w]
    by (metis prod.collapse)
  ultimately show ?case
    by (simp add: sleep_100ms_def after_polls_Suc)
qed

lemma focus_loop_first_success:
  "k < n \<Longrightarrow>
   (\<And>j. j < k \<Longrightarrow>
      fst (try_get_wmctrl_item (virt_manager_target_title d) (after_polls j w)) = Returns (None, False))
   \<Longrightarrow> fst (try_get_wmctrl_item (virt_manager_target_title d) (after_polls k w)) = Returns (Some it, True)
   \<Longrightarrow> focus_loop n d w =
        (Returns (),
         log (Exec (''wmctrl -ia '' @ window_id it)) (log (Exec ''wmctrl -l'') (after_polls k w)))"
proof (induction n arbitrary: w k)
  case 0
  then show ?case by simp
next
  case (Suc n)
  show ?case
  proof (cases k)
    case 0
    with Suc.prems(3)
    have "try_get_wmctrl_item (virt_manager_target_title d) w
      = (Returns (Some it, True), log (Exec ''wmctrl -l'') w)"
      using snd_try_get_wmctrl_item [of "virt_manager_target_title d" w]
      by (metis after_polls_0 prod.collapse)
    with 0 show ?thesis by (simp add: execute_command_def)
  next
    case (Suc k')
    let ?w2 = "log Sleep (log (Exec ''wmctrl -l'') w)"
    from Suc.prems(2) [of 0] Suc
    have f: "fst (try_get_wmctrl_item (virt_manager_target_title d) w) = Returns (None, False)"
      by simp
    have t: "try_get_wmctrl_item (virt_manager_target_title d) w
      = (Returns (None, False), log (Exec ''wmctrl -l'') w)"
      using f snd_try_get_wmctrl_item [of "virt_manager_target_title d" w]
      by (metis prod.collapse)
    have "focus_loop n d ?w2 =
        (Returns (),
         log (Exec (''wmctrl -ia '' @ window_id it)) (log (Exec ''wmctrl -l'') (after_polls k' ?w2)))"
    proof (rule Suc.IH)
      show "k' < n" using Suc.prems(1) Suc by simp
    next
      fix j assume "j < k'"
      then have "Suc j < k" using Suc by simp
      from Suc.prems(2) [OF this]
      show "fst (try_get_wmctrl_item (virt_manager_target_title d) (after_polls j ?w2)) = Returns (None, False)"
        by (simp add: after_polls_Suc)
    next
      show "fst (try_get_wmctrl_item (virt_manager_target_title d) (after_polls k' ?w2)) = Returns (Some it, True)"
        using Suc.prems(3) Suc by (simp add: after_polls_Suc)
    qed
    with t Suc show ?thesis
      by (simp add: sleep_100ms_def after_polls_Suc)
  qed
qed

text \<open>
  Claim C6. \<open>open_virt_manager\<close> runs the console viewer's command and then polls: in
  every world, what follows the launch in the trace holds at most 10 window listings
  and at most 10 sleeps of 100 ms, one second of sleeping in all. If each of the 10
  attempts reports nothing found, it returns without an exception after 10 listings, each
  followed by a sleep, and activates no window. If the attempts before attempt \<open>k\<close> (counted
  from 0, \<open>k < 10\<close>) report nothing found and attempt \<open>k\<close> finds a window, it activates that
  window by its id and returns at once: no further listing and no further sleep.
\<close>

theorem open_virt_manager_polls_at_most_ten_times:
  "(\<exists>evs. trace (snd (open_virt_manager d w)) = trace w @ Exec (launch_command d) # evs
       \<and> count_list evs (Exec ''wmctrl -l'') \<le> 10 \<and> count_list evs Sleep \<le> 10)
   \<and> ((\<forall>j<10. fst (try_get_wmctrl_item (virt_manager_target_title d)
                     (after_polls j (launched d w))) = Returns (None, False))
        \<longrightarrow> open_virt_manager d w = (Returns (), after_polls 10 (launched d w)))
   \<and> (k < 10
        \<and> (\<forall>j<k. fst (try_get_wmctrl_item (virt_manager_target_title d)
                     (after_polls j (launched d w))) = Returns (None, False))
        \<and> fst (try_get_wmctrl_item (virt_manager_target_title d)
                     (after_polls k (launched d w))) = Returns (Some it, True)
        \<longrightarrow> open_virt_manager d w =
             (Returns (),
              log (Exec (''wmctrl -ia '' @ window_id it))
                (log (Exec ''wmctrl -l'') (after_polls k (launched d w)))))"
proof -
  have o: "open_virt_manager d w = focus_loop 10 d (launched d w)"
    by (simp add: open_virt_manager_def execute_command_def launched_def launch_command_def log_def)
  from focus_loop_bound [of 10 d "launched d w"] obtain evs where
    "trace (snd (focus_loop 10 d (launched d w))) = trace (launched d w) @ evs"
    "count_list evs (Exec ''wmctrl -l'') \<le> 10" "count_list evs Sleep \<le> 10"
    by blast
  then have a: "\<exists>evs. trace (snd (open_virt_manager d w)) = trace w @ Exec (launch_command d) # evs
       \<and> count_list evs (Exec ''wmctrl -l'') \<le> 10 \<and> count_list evs Sleep \<le> 10"
    using o by (simp add: launched_def)
  have b: "open_virt_manager d w = (Returns (), after_polls 10 (launched d w))"
    if "\<forall>j<10. fst (try_get_wmctrl_item (virt_manager_target_title d)
                     (after_polls j (launched d w))) = Returns (None, False)"
    using that o focus_loop_gives_up [of 10 d "launched d w"] by simp
  have c: "open_virt_manager d w =
             (Returns (),
              log (Exec (''wmctrl -ia '' @ window_id it))
                (log (Exec ''wmctrl -l'') (after_polls k (launched d w))))"
    if "k < 10"
      and "\<forall>j<k. fst (try_get_wmctrl_item (virt_manager_target_title d)
                     (after_polls j (launched d w))) = Returns (None, False)"
      and "fst (try_get_wmctrl_item (virt_manager_target_title d)
                     (after_polls k (launched d w))) = Returns (Some it, True)"
    using that o focus_loop_first_success [of k 10 d "launched d w" it] by simp
  from a b c show ?thesis by blast
qed

lemmas wm_defs = try_get_wmctrl_item_eq parse_listing_def strip_def isspace_def numeral_3_eq_3
  virt_manager_target_title_def after_polls_def launched_def launch_command_def log_def

theorem open_virt_manager_polls_at_most_ten_times_witness:
  "open_virt_manager ''vm'' never_appears
     = (Returns (), after_polls 10 (launched ''vm'' never_appears))
   \<and> count_list (trace (after_polls 10 (launched ''vm'' never_appears))) Sleep = 10
   \<and> count_list (trace (after_polls 10 (launched ''vm'' never_appears))) (Exec ''wmctrl -l'') = 10
   \<and> (\<exists>w'. open_virt_manager ''vm'' appears_after_two = (Returns (), w')
        \<and> trace w' =
           [Exec ''virt-manager --connect=qemu:///system --show-domain-console=vm'',
            Exec ''wmctrl -l'', Sleep,
            Exec ''wmctrl -l'', Sleep,
            Exec ''wmctrl -l'', Exec ''wmctrl -ia 0x02''])"
proof -
  have n: "\<forall>j<10. fst (try_get_wmctrl_item (virt_manager_target_title ''vm'')
             (after_polls j (launched ''vm'' never_appears))) = Returns (None, False)"
    by (simp add: wm_defs never_appears_def)
  have cnt: "count_list (concat (replicate j [Exec ''wmctrl -l'', Sleep])) Sleep = j" for j
    by (induction j) simp_all
  have cnt': "count_list (concat (replicate j [Exec ''wmctrl -l'', Sleep])) (Exec ''wmctrl -l'') = j" for j
    by (induction j) simp_all
  have a1: "\<forall>j<2. fst (try_get_wmctrl_item (virt_manager_target_title ''vm'')
             (after_polls j (launched ''vm'' appears_after_two))) = Returns (None, False)"
    by (simp add: wm_defs appears_after_two_def cnt)
  have a2: "fst (try_get_wmctrl_item (virt_manager_target_title ''vm'')
             (after_polls 2 (launched ''vm'' appears_after_two)))
           = Returns (Some \<lparr>window_id = ''0x02'', title = ''vm on QEMU/KVM''\<rparr>, True)"
    by (simp add: wm_defs appears_after_two_def cnt)
  have "open_virt_manager ''vm'' never_appears
     = (Returns (), after_polls 10 (launched ''vm'' never_appears))"
    using open_virt_manager_polls_at_most_ten_times [of "''vm''" never_appears] n by blast
  moreover have "open_virt_manager ''vm'' appears_after_two =
       (Returns (),
        log (Exec (''wmctrl -ia '' @ window_id \<lparr>window_id = ''0x02'', title = ''vm on QEMU/KVM''\<rparr>))
          (log (Exec ''wmctrl -l'') (after_polls 2 (launched ''vm'' appears_after_two))))"
    using open_virt_manager_polls_at_most_ten_times
      [of "''vm''" appears_after_two 2 "\<lparr>window_id = ''0x02'', title = ''vm on QEMU/KVM''\<rparr>"]
      a1 a2 by simp
  moreover have "count_list (trace (after_polls 10 (launched ''vm'' never_appears))) Sleep = 10"
    by (simp add: after_polls_def launched_def never_appears_def cnt)
  moreover have "count_list (trace (after_polls 10 (launched ''vm'' never_appears))) (Exec ''wmctrl -l'') = 10"
    by (simp add: after_polls_def launched_def launch_command_def never_appears_def cnt')
  ultimately show ?thesis
    by (simp add: after_polls_def launched_def launch_command_def log_def appears_after_two_def
        numeral_2_eq_2)
qed

section \<open>Splitting a line into fields\<close>

lemma split_whitespace_Suc:
  "split_whitespace (Suc n) s =
     (if dropWhile isspace s = [] then [] else first_field s # split_whitespace n (skip_field s))"
  by (simp add: Let_def first_field_def skip_field_def)

lemma split_whitespace_0:
  "split_whitespace 0 s = (if dropWhile isspace s = [] then [] else [dropWhile isspace s])"
  by (simp add: Let_def)

lemma skip_field_blank:
  assumes "dropWhile isspace s = []"
  shows "dropWhile isspace (skip_field s) = []"
proof -
  have "skip_field s = []"
    unfolding skip_field_def assms by simp
  then show ?thesis by simp
qed

lemma split_whitespace_3:
  "split_whitespace 3 s =
     (if dropWhile isspace s = [] then []
      else first_field s #
       (if dropWhile isspace (skip_field s) = [] then []
        else first_field (skip_field s) #
         (if dropWhile isspace (skip_field (skip_field s)) = [] then []
          else first_field (skip_field (skip_field s)) #
           (if after_three_fields s = [] then [] else [after_three_fields s]))))"
  unfolding numeral_3_eq_3 split_whitespace_Suc split_whitespace_0 after_three_fields_def
  by simp

lemma split_whitespace_3_full:
  assumes "after_three_fields s \<noteq> []"
  shows "split_whitespace 3 s =
     [first_field s, first_field (skip_field s), first_field (skip_field (skip_field s)),
      after_three_fields s]"
proof -
  from assms have 2: "dropWhile isspace (skip_field (skip_field s)) \<noteq> []"
    using skip_field_blank [of "skip_field (skip_field s)"] by (auto simp: after_three_fields_def)
  then have 1: "dropWhile isspace (skip_field s) \<noteq> []"
    using skip_field_blank [of "skip_field s"] by auto
  then have 0: "dropWhile isspace s \<noteq> []"
    using skip_field_blank [of s] by auto
  show ?thesis using assms 0 1 2 by (simp add: split_whitespace_3)
qed

lemma split_whitespace_3_short:
  "after_three_fields s = [] \<Longrightarrow> length (split_whitespace 3 s) < 4"
  by (simp add: split_whitespace_3)

lemma loop_all_full:
  "\<forall>line \<in> set lines. after_three_fields line \<noteq> [] \<Longrightarrow>
   get_wmctrl_items_loop lines acc =
     Returns (acc @ map (\<lambda>line. \<lparr>window_id = first_field line, title = after_three_fields line\<rparr>) lines)"
  by (induction lines arbitrary: acc) (simp_all add: split_whitespace_3_full)

lemma short_raises:
  "length ps < 4 \<Longrightarrow>
   (case ps of [wid, x, y, ttl] \<Rightarrow> f wid ttl | _ \<Rightarrow> Raises ValueError) = Raises ValueError"
  by (auto split: list.splits)

lemma loop_some_short:
  "\<exists>line \<in> set lines. after_three_fields line = [] \<Longrightarrow>
   get_wmctrl_items_loop lines acc = Raises ValueError"
proof (induction lines arbitrary: acc)
  case Nil
  then show ?case by simp
next
  case (Cons line lines)
  show ?case
  proof (cases "after_three_fields line = []")
    case True
    from split_whitespace_3_short [OF this] show ?thesis
      by (simp add: short_raises)
  next
    case False
    with Cons.prems have "\<exists>l \<in> set lines. after_three_fields l = []" by auto
    from Cons.IH [OF this] False show ?thesis
      by (simp add: split_whitespace_3_full)
  qed
qed

lemma get_wmctrl_items_eq:
  "get_wmctrl_items w = (parse_listing (shell w (trace w) ''wmctrl -l''), log (Exec ''wmctrl -l'') w)"
  by (simp add: get_wmctrl_items_def execute_command_def)

section \<open>Parsing the window listing\<close>

text \<open>
  Claim C4 has the title start after the first two fields of a line. On the line that
  the window manager prints for a terminal window (id, desktop, host, title), the code
  returns the title \<open>Terminal\<close>; a parser that takes the rest of the line after two
  fields returns \<open>myhost Terminal\<close>.
\<close>

theorem title_is_rest_after_two_fields_counterexample:
  "parse_listing ''0x03a00003  0 myhost Terminal''
     = Returns [\<lparr>window_id = ''0x03a00003'', title = ''Terminal''\<rparr>]
   \<and> listWindows_spec ''0x03a00003  0 myhost Terminal''
     = Returns [\<lparr>window_id = ''0x03a00003'', title = ''myhost Terminal''\<rparr>]
   \<and> parse_listing ''0x03a00003  0 myhost Terminal''
     \<noteq> listWindows_spec ''0x03a00003  0 myhost Terminal''"
  by (simp add: parse_listing_def listWindows_spec_def strip_def isspace_def numeral_3_eq_3
      numeral_2_eq_2)

text \<open>
  Claim C4, amended. \<open>get_wmctrl_items\<close> runs \<open>wmctrl -l\<close> once, strips the output and
  splits it into lines. From each line it takes the first whitespace-delimited field as
  the window id, ignores the second and the third field, and takes as the title
  everything after the whitespace that follows the third field, to the end of the line.
  When that title is non-empty on every line, it returns one record per line, in the order
  of the listing. When some line has at least one field and no title left after three
  fields, it raises \<open>ValueError\<close>: no record is returned for any line.
\<close>

theorem get_wmctrl_items_title_after_three_fields:
  "get_wmctrl_items w
     = (parse_listing (shell w (trace w) ''wmctrl -l''), log (Exec ''wmctrl -l'') w)
   \<and> ((\<forall>line \<in> set (split_nl (strip out)). after_three_fields line \<noteq> [])
        \<longrightarrow> parse_listing out =
             Returns (map (\<lambda>line. \<lparr>window_id = first_field line,
                                    title = after_three_fields line\<rparr>)
                        (split_nl (strip out))))
   \<and> ((\<exists>line \<in> set (split_nl (strip out)).
           first_field line \<noteq> [] \<and> after_three_fields line = [])
        \<longrightarrow> parse_listing out = Raises ValueError)"
proof -
  have "parse_listing out = Raises ValueError"
    if "\<exists>line \<in> set (split_nl (strip out)). first_field line \<noteq> [] \<and> after_three_fields line = []"
  proof -
    from that have "\<exists>line \<in> set (split_nl (strip out)). after_three_fields line = []"
      by blast
    then show ?thesis
      unfolding parse_listing_def by (rule loop_some_short)
  qed
  moreover have "parse_listing out =
             Returns (map (\<lambda>line. \<lparr>window_id = first_field line,
                                    title = after_three_fields line\<rparr>)
                        (split_nl (strip out)))"
    if "\<forall>line \<in> set (split_nl (strip out)). after_three_fields line \<noteq> []"
    using loop_all_full [OF that, of "[]"] by (simp add: parse_listing_def)
  ultimately show ?thesis
    using get_wmctrl_items_eq [of w] by blast
qed

theorem get_wmctrl_items_title_after_three_fields_witness:
  "parse_listing two_windows =
     Returns [\<lparr>window_id = ''0x03a00003'', title = ''Terminal''\<rparr>,
              \<lparr>window_id = ''0x04600007'', title = ''vm on QEMU/KVM''\<rparr>]
   \<and> parse_listing untitled_window = Raises ValueError"
proof -
  have l2: "split_nl (strip two_windows)
      = [''0x03a00003  0 myhost Terminal'', ''0x04600007  1 myhost vm on QEMU/KVM'']"
    by (simp add: two_windows_def strip_def isspace_def)
  have l1: "split_nl (strip untitled_window)
      = [''0x03a00003  0 myhost Terminal'', ''0x04600007  1 myhost'']"
    by (simp add: untitled_window_def strip_def isspace_def)
  have full: "\<forall>line \<in> set (split_nl (strip two_windows)). after_three_fields line \<noteq> []"
    unfolding l2 by (simp add: after_three_fields_def skip_field_def isspace_def)
  have short: "\<exists>line \<in> set (split_nl (strip untitled_window)).
       first_field line \<noteq> [] \<and> after_three_fields line = []"
    unfolding l1 by (simp add: after_three_fields_def skip_field_def first_field_def isspace_def)
  from get_wmctrl_items_title_after_three_fields [of never_appears two_windows] full
  have "parse_listing two_windows =
     Returns (map (\<lambda>line. \<lparr>window_id = first_field line, title = after_three_fields line\<rparr>)
                (split_nl (strip two_windows)))"
    by blast
  then have a: "parse_listing two_windows =
     Returns [\<lparr>window_id = ''0x03a00003'', title = ''Terminal''\<rparr>,
              \<lparr>window_id = ''0x04600007'', title = ''vm on QEMU/KVM''\<rparr>]"
    unfolding l2 by (simp add: after_three_fields_def skip_field_def first_field_def isspace_def)
  from get_wmctrl_items_title_after_three_fields [of never_appears untitled_window] short
  have "parse_listing untitled_window = Raises ValueError"
    by blast
  with a show ?thesis by blast
qed

section \<open>Window existence and the console toggle\<close>

lemma is_window_open_eq:
  "is_window_open P w = (scan_listing P (shell w (trace w) ''wmctrl -l''), log (Exec ''wmctrl -l'') w)"
  by (simp add: is_window_open_def execute_command_def)

lemma loop_returns_full:
  assumes "get_wmctrl_items_loop lines acc = Returns its"
  shows "\<forall>line \<in> set lines. after_three_fields line \<noteq> []"
proof (rule ccontr)
  assume "\<not> (\<forall>line \<in> set lines. after_three_fields line \<noteq> [])"
  then have "\<exists>line \<in> set lines. after_three_fields line = []" by blast
  from loop_some_short [OF this, of acc] assms show False by simp
qed

lemma is_window_open_loop_full:
  "\<forall>line \<in> set lines. after_three_fields line \<noteq> [] \<Longrightarrow>
   is_window_open_loop P lines = Returns (\<exists>line \<in> set lines. P (after_three_fields line))"
  by (induction lines) (simp_all add: split_whitespace_3_full)

lemma first_target_found:
  "snd (first_target P its) = (\<exists>it \<in> set its. P (title it))"
  by (induction its) simp_all

lemma scan_listing_parsed:
  assumes "parse_listing out = Returns its"
  shows "scan_listing P out = Returns (\<exists>it \<in> set its. P (title it))"
proof -
  let ?lines = "split_nl (strip out)"
  from assms have full: "\<forall>line \<in> set ?lines. after_three_fields line \<noteq> []"
    unfolding parse_listing_def by (rule loop_returns_full)
  from loop_all_full [OF full, of "[]"] assms
  have its: "its = map (\<lambda>line. \<lparr>window_id = first_field line, title = after_three_fields line\<rparr>) ?lines"
    by (simp add: parse_listing_def)
  show ?thesis
    unfolding scan_listing_def is_window_open_loop_full [OF full] its by simp
qed

lemma is_window_open_agrees_on_parsed_listing:
  assumes "parse_listing (shell w (trace w) ''wmctrl -l'') = Returns its"
  shows "fst (is_window_open P w) = Returns (\<exists>it \<in> set its. P (title it))"
    and "\<exists>item. fst (try_get_wmctrl_item P w) = Returns (item, \<exists>it \<in> set its. P (title it))"
proof -
  show "fst (is_window_open P w) = Returns (\<exists>it \<in> set its. P (title it))"
    using scan_listing_parsed [OF assms] by (simp add: is_window_open_eq)
  have "fst (try_get_wmctrl_item P w) = Returns (first_target P its)"
    using assms by (simp add: try_get_wmctrl_item_eq)
  moreover have "first_target P its = (fst (first_target P its), \<exists>it \<in> set its. P (title it))"
    using first_target_found [of P its] by (simp add: prod_eq_iff)
  ultimately have "fst (try_get_wmctrl_item P w)
      = Returns (fst (first_target P its), \<exists>it \<in> set its. P (title it))"
    by simp
  then show "\<exists>item. fst (try_get_wmctrl_item P w) = Returns (item, \<exists>it \<in> set its. P (title it))"
    by (rule exI)
qed

text \<open>
  Claim C5 at the listing of a desktop without windows. The output of \<open>wmctrl -l\<close> is
  empty; stripped and split into lines it is the one empty line, which splits into no
  piece at all, and the last piece of nothing is an \<open>IndexError\<close>. So \<open>is_window_open\<close>
  raises for every predicate, where no window satisfies it and the claim has it return
  false. (On a listing that \<open>get_wmctrl_items\<close> can parse, it does return whether some
  listed title satisfies the predicate, as \<open>try_get_wmctrl_item\<close> does: see
  \<open>is_window_open_agrees_on_parsed_listing\<close>.)
\<close>

theorem is_window_open_raises_on_empty_listing:
  "is_window_open is_target_title empty_desktop
     = (Raises IndexError, empty_desktop\<lparr>trace := [Exec ''wmctrl -l'']\<rparr>)"
  by (simp add: is_window_open_eq scan_listing_def strip_def empty_desktop_def log_def
      numeral_3_eq_3)

lemma close_loop:
  "for_each (\<lambda>item w.
      if P (title item)
      then (Returns (), snd (execute_command (''wmctrl -ic '' @ window_id item) w))
      else (Returns (), w)) its w =
   (Returns (),
    w\<lparr>trace := trace w @ map (\<lambda>it. Exec (''wmctrl -ic '' @ window_id it))
                          (filter (\<lambda>it. P (title it)) its)\<rparr>)"
  by (induction its arbitrary: w) (simp_all add: execute_command_def log_def)

lemma close_window_closes_every_match:
  assumes "parse_listing (shell w (trace w) ''wmctrl -l'') = Returns its"
  shows "close_window P w =
    (Returns (),
     w\<lparr>trace := trace w @ Exec ''wmctrl -l'' #
        map (\<lambda>it. Exec (''wmctrl -ic '' @ window_id it)) (filter (\<lambda>it. P (title it)) its)\<rparr>)"
  using assms
  by (simp add: close_window_def then_do_def get_wmctrl_items_eq close_loop log_def)

lemma trigger_virt_manager_on_parsed_listing:
  assumes "shell w (trace w) ''wmctrl -l'' = out"
    and "shell w (trace w @ [Exec ''wmctrl -l'']) ''wmctrl -l'' = out"
    and "parse_listing out = Returns its"
  shows "trigger_virt_manager d w =
    (if \<exists>it \<in> set its. title it = d @ '' on QEMU/KVM''
     then (Returns (),
           w\<lparr>trace := trace w @ [Exec ''wmctrl -l'', Exec ''wmctrl -l''] @
              map (\<lambda>it. Exec (''wmctrl -ic '' @ window_id it))
                (filter (\<lambda>it. title it = d @ '' on QEMU/KVM'') its)\<rparr>)
     else open_virt_manager d (w\<lparr>trace := trace w @ [Exec ''wmctrl -l'']\<rparr>))"
proof -
  let ?T = "virt_manager_target_title d"
  let ?w1 = "log (Exec ''wmctrl -l'') w"
  have o: "is_window_open ?T w = (Returns (\<exists>it \<in> set its. ?T (title it)), ?w1)"
    using scan_listing_parsed [OF assms(3), of ?T] assms(1) by (simp add: is_window_open_eq)
  have "parse_listing (shell ?w1 (trace ?w1) ''wmctrl -l'') = Returns its"
    using assms(2,3) by (simp add: log_def)
  from close_window_closes_every_match [OF this, of ?T]
  have c: "close_window ?T ?w1 =
    (Returns (),
     ?w1\<lparr>trace := trace ?w1 @ Exec ''wmctrl -l'' #
        map (\<lambda>it. Exec (''wmctrl -ic '' @ window_id it)) (filter (\<lambda>it. ?T (title it)) its)\<rparr>)" .
  show ?thesis
    using o c by (simp add: trigger_virt_manager_def then_do_def log_def
        virt_manager_target_title_def)
qed

text \<open>
  Claim C7 at the listing of a desktop without windows. No window has the target title,
  so the claim has \<open>trigger_virt_manager\<close> open a console. It raises \<open>IndexError\<close> out of
  \<open>is_window_open\<close> instead: the one listing is all it ran, and the console viewer is
  never launched. (With a listing that parses and is the same for both queries, it closes
  every window with the target title, one command each, or else opens the console: see
  \<open>trigger_virt_manager_on_parsed_listing\<close>.)
\<close>

theorem trigger_virt_manager_raises_on_empty_listing:
  "trigger_virt_manager d empty_desktop
     = (Raises IndexError, empty_desktop\<lparr>trace := [Exec ''wmctrl -l'']\<rparr>)"
  by (simp add: trigger_virt_manager_def then_do_def is_window_open_eq scan_listing_def
      strip_def empty_desktop_def log_def numeral_3_eq_3)

end
